theory Spec2Isabelle
  imports Main "HOL-Library.AList" "HOL-Library.Multiset" "HOL-Library.Product_Lexorder"
begin

section \<open>The reminder store of mcp-reminders (src/index.ts)\<close>

text \<open>
  The class \<^verbatim>\<open>ReminderManager\<close> keeps a JavaScript \<^verbatim>\<open>Map<string, Reminder>\<close> in
  memory and rewrites one JSON file after every mutation. The embedding below follows
  the class method by method. What the methods ask of the runtime (the clock, the random
  number generator, the file system) is made explicit as a record \<open>env\<close> of the
  answers the runtime gives during one call.
\<close>

subsection \<open>Data model\<close>

datatype priority = High | Normal | Low

datatype status = Active | Completed | Moved

text \<open>The string each priority is at run time (the TypeScript union of literals).\<close>

fun priority_str :: "priority \<Rightarrow> string" where
  "priority_str High = ''high''"
| "priority_str Normal = ''normal''"
| "priority_str Low = ''low''"

text \<open>
  \<^verbatim>\<open>interface Reminder\<close>. The field \<^verbatim>\<open>id\<close> is called \<open>rem_id\<close> here (\<open>id\<close> is
  HOL's identity function); the optional field \<^verbatim>\<open>completed\<close> is an option.
\<close>

record reminder =
  rem_id :: string
  content :: string
  priority :: priority
  created :: string
  completed :: "string option"
  status :: status

text \<open>
  A JavaScript \<^verbatim>\<open>Map\<close> iterates in insertion order, so it is an association list:
  \<^verbatim>\<open>get\<close> is \<^const>\<open>map_of\<close>, \<^verbatim>\<open>set\<close> is \<^const>\<open>AList.update\<close> (an existing key
  keeps its place, a new key goes to the end), \<^verbatim>\<open>delete\<close> is \<^const>\<open>AList.delete\<close>.
  The keys of a \<^verbatim>\<open>Map\<close> are distinct; where a property needs it, it is a hypothesis
  \<open>distinct (map fst rs)\<close>.
\<close>

type_synonym store = "(string \<times> reminder) list"

text \<open>
  The reminders file: absent, unreadable as JSON (\<^verbatim>\<open>JSON.parse\<close> or
  \<^verbatim>\<open>Object.entries\<close> throws), or a JSON object from ids to reminders, held as the list
  of its properties in enumeration order. \<^verbatim>\<open>JSON.stringify\<close> and \<^verbatim>\<open>JSON.parse\<close>
  belong to the runtime and are inverse to each other on such objects (every field of a
  reminder is a string, and an absent \<^verbatim>\<open>completed\<close> is left out and read back as
  undefined), so the model keeps the object and not its text.
\<close>

datatype file_content = NoFile | Corrupt | Json "(string \<times> reminder) list"

record manager =
  reminders :: store
  disk :: file_content

text \<open>
  What the runtime answers during one call:
  \<^item> \<open>getTime s\<close> is \<^verbatim>\<open>new Date(s).getTime()\<close>, in milliseconds (the strings the store
    writes come from \<^verbatim>\<open>toISOString\<close>, so the invalid date is not modelled);
  \<^item> \<open>date_now\<close> is \<^verbatim>\<open>Date.now()\<close> and \<open>iso_now\<close> is \<^verbatim>\<open>new Date().toISOString()\<close>
    (a method that reads the clock twice gets the same answer both times);
  \<^item> \<open>random36\<close> is \<^verbatim>\<open>Math.random().toString(36).substr(2, 5)\<close>;
  \<^item> \<open>write_ok\<close> tells whether \<^verbatim>\<open>fs.writeFileSync\<close> on the reminders file succeeds;
  \<^item> \<open>sink name text\<close> is the hand-off to the notes directory (\<^verbatim>\<open>existsSync\<close>,
    \<^verbatim>\<open>mkdirSync\<close>, \<^verbatim>\<open>writeFileSync\<close>): \<open>None\<close> when it succeeds, \<open>Some e\<close> when it
    throws, \<open>e\<close> being the text the exception renders to.
\<close>

record env =
  getTime :: "string \<Rightarrow> int"
  date_now :: int
  iso_now :: string
  random36 :: string
  write_ok :: bool
  sink :: "string \<Rightarrow> string \<Rightarrow> string option"

subsection \<open>Runtime helpers\<close>

text \<open>Decimal rendering of a number inside a template literal.\<close>

fun dec_digits :: "int \<Rightarrow> string" where
  "dec_digits n =
     (if n < 10 then [char_of (48 + n)]
      else dec_digits (n div 10) @ [char_of (48 + n mod 10)])"

declare dec_digits.simps [simp del]

definition dec_int :: "int \<Rightarrow> string" where
  "dec_int i = (if i < 0 then CHR ''-'' # dec_digits (- i) else dec_digits i)"

text \<open>
  The own properties of a JavaScript object are enumerated with the array indices first
  (canonical decimal strings below \<open>2^32 - 1\<close>), in ascending numeric order, and then
  the other string keys in the order they were created.
\<close>

definition is_digit :: "char \<Rightarrow> bool" where
  "is_digit c = (48 \<le> (of_char c :: int) \<and> (of_char c :: int) \<le> 57)"

definition digit_val :: "char \<Rightarrow> int" where
  "digit_val c = of_char c - 48"

definition num_val :: "string \<Rightarrow> int" where
  "num_val s = foldl (\<lambda>a c. 10 * a + digit_val c) 0 s"

definition is_array_index :: "string \<Rightarrow> bool" where
  "is_array_index s =
     (s \<noteq> [] \<and> list_all is_digit s \<and> (s = ''0'' \<or> hd s \<noteq> CHR ''0'')
      \<and> num_val s < 4294967295)"

definition own_properties :: "(string \<times> 'v) list \<Rightarrow> (string \<times> 'v) list" where
  "own_properties ps =
     sort_key (\<lambda>p. num_val (fst p)) (filter (\<lambda>p. is_array_index (fst p)) ps)
     @ filter (\<lambda>p. \<not> is_array_index (fst p)) ps"

text \<open>
  \<^verbatim>\<open>Object.fromEntries\<close> defines one property per entry, a later entry replacing the
  value of an earlier one with the same key; \<^verbatim>\<open>Object.entries\<close> lists the properties
  of an object, which the representation already has in order; \<^verbatim>\<open>new Map(entries)\<close>
  calls \<^verbatim>\<open>set\<close> for each entry in turn.
\<close>

definition Object_fromEntries :: "(string \<times> 'v) list \<Rightarrow> (string \<times> 'v) list" where
  "Object_fromEntries es = own_properties (foldl (\<lambda>obj (k, v). AList.update k v obj) [] es)"

definition Object_entries :: "(string \<times> 'v) list \<Rightarrow> (string \<times> 'v) list" where
  "Object_entries obj = obj"

definition new_Map :: "(string \<times> 'v) list \<Rightarrow> (string \<times> 'v) list" where
  "new_Map es = foldl (\<lambda>m (k, v). AList.update k v m) [] es"

text \<open>
  \<^verbatim>\<open>Array.prototype.sort\<close> with a comparison function is a stable sort; for a
  comparison that is a consistent ordering its result is the one of insertion sort.
\<close>

fun insert_by :: "('a \<Rightarrow> 'a \<Rightarrow> int) \<Rightarrow> 'a \<Rightarrow> 'a list \<Rightarrow> 'a list" where
  "insert_by cmp x [] = [x]"
| "insert_by cmp x (y # ys) = (if cmp x y \<le> 0 then x # y # ys else y # insert_by cmp x ys)"

definition sort_by :: "('a \<Rightarrow> 'a \<Rightarrow> int) \<Rightarrow> 'a list \<Rightarrow> 'a list" where
  "sort_by cmp xs = foldr (insert_by cmp) xs []"

subsection \<open>ReminderManager\<close>

definition loadReminders :: "manager \<Rightarrow> manager" where
  "loadReminders m =
     (case disk m of
        NoFile \<Rightarrow> m
      | Corrupt \<Rightarrow> m\<lparr>reminders := []\<rparr>
      | Json parsed \<Rightarrow> m\<lparr>reminders := new_Map (Object_entries parsed)\<rparr>)"

text \<open>The constructor: the field initialiser \<^verbatim>\<open>new Map()\<close>, then \<^verbatim>\<open>loadReminders\<close>.\<close>

definition new_ReminderManager :: "file_content \<Rightarrow> manager" where
  "new_ReminderManager f = loadReminders \<lparr>reminders = [], disk = f\<rparr>"

definition saveReminders :: "env \<Rightarrow> manager \<Rightarrow> manager" where
  "saveReminders e m =
     (if write_ok e then m\<lparr>disk := Json (Object_fromEntries (reminders m))\<rparr> else m)"

definition new_id :: "env \<Rightarrow> string" where
  "new_id e = ''rem_'' @ dec_int (date_now e) @ ''_'' @ random36 e"

definition addReminder :: "env \<Rightarrow> string \<Rightarrow> priority option \<Rightarrow> manager \<Rightarrow> string \<times> manager" where
  "addReminder e cont prio m =
     (let rid = new_id e;
          reminder = \<lparr>rem_id = rid, content = cont,
                      priority = (case prio of None \<Rightarrow> Normal | Some p \<Rightarrow> p),
                      created = iso_now e, completed = None, status = Active\<rparr>
      in (rid, saveReminders e (m\<lparr>reminders := AList.update rid reminder (reminders m)\<rparr>)))"

fun priorityOrder :: "priority \<Rightarrow> int" where
  "priorityOrder High = 0"
| "priorityOrder Normal = 1"
| "priorityOrder Low = 2"

definition compare_reminders :: "(string \<Rightarrow> int) \<Rightarrow> reminder \<Rightarrow> reminder \<Rightarrow> int" where
  "compare_reminders gt a b =
     (let priDiff = priorityOrder (priority a) - priorityOrder (priority b)
      in if priDiff \<noteq> 0 then priDiff else gt (created a) - gt (created b))"

definition getReminders :: "env \<Rightarrow> manager \<Rightarrow> string option \<Rightarrow> reminder list" where
  "getReminders e m flt =
     (let f = (case flt of None \<Rightarrow> ''all'' | Some s \<Rightarrow> s);
          rs = filter (\<lambda>r. status r = Active) (map snd (reminders m));
          rs' = (if f \<noteq> ''all'' then filter (\<lambda>r. priority_str (priority r) = f) rs else rs)
      in sort_by (compare_reminders (getTime e)) rs')"

definition completeReminder :: "env \<Rightarrow> string \<Rightarrow> manager \<Rightarrow> bool \<times> manager" where
  "completeReminder e rid m =
     (case map_of (reminders m) rid of
        None \<Rightarrow> (False, m)
      | Some r \<Rightarrow>
          if status r \<noteq> Active then (False, m)
          else (True, saveReminders e
                  (m\<lparr>reminders :=
                       AList.update rid (r\<lparr>status := Completed, completed := Some (iso_now e)\<rparr>)
                         (reminders m)\<rparr>)))"

definition deleteReminder :: "env \<Rightarrow> string \<Rightarrow> manager \<Rightarrow> bool \<times> manager" where
  "deleteReminder e rid m =
     (let deleted = (map_of (reminders m) rid \<noteq> None);
          m1 = m\<lparr>reminders := AList.delete rid (reminders m)\<rparr>
      in (deleted, if deleted then saveReminders e m1 else m1))"

definition newline :: char where
  "newline = char_of (10 :: nat)"

definition noteContent :: "env \<Rightarrow> reminder \<Rightarrow> string option \<Rightarrow> string" where
  "noteContent e r additionalNote =
     ''# Reminder: '' @ content r @ [newline, newline]
     @ ''Created: '' @ created r @ [newline]
     @ ''Priority: '' @ priority_str (priority r) @ [newline]
     @ (case additionalNote of
          None \<Rightarrow> []
        | Some n \<Rightarrow> if n = [] then [] else [newline] @ ''Note: '' @ n)
     @ [newline, newline]
     @ ''Moved to notes on: '' @ iso_now e @ [newline]"

definition note_filename :: "env \<Rightarrow> string \<Rightarrow> string" where
  "note_filename e rid =
     ''reminder_'' @ takeWhile (\<lambda>c. c \<noteq> CHR ''T'') (iso_now e) @ ''_'' @ rid @ ''.md''"

record move_result =
  success :: bool
  message :: string

definition moveToNotes ::
  "env \<Rightarrow> string \<Rightarrow> string option \<Rightarrow> manager \<Rightarrow> move_result \<times> manager" where
  "moveToNotes e rid additionalNote m =
     (case map_of (reminders m) rid of
        None \<Rightarrow> (\<lparr>success = False, message = ''Reminder not found or already processed''\<rparr>, m)
      | Some r \<Rightarrow>
          if status r \<noteq> Active
          then (\<lparr>success = False, message = ''Reminder not found or already processed''\<rparr>, m)
          else
            (let filename = note_filename e rid in
             case sink e filename (noteContent e r additionalNote) of
               Some err \<Rightarrow> (\<lparr>success = False, message = ''Error moving to notes: '' @ err\<rparr>, m)
             | None \<Rightarrow>
                 (\<lparr>success = True, message = ''Moved to notes: '' @ filename\<rparr>,
                  saveReminders e
                    (m\<lparr>reminders := AList.update rid (r\<lparr>status := Moved\<rparr>) (reminders m)\<rparr>))))"

text \<open>
  The loop of \<^verbatim>\<open>clearOldReminders\<close> walks the entries of the map and deletes the
  current one when it is old and not active; deleting the current entry does not
  disturb the iteration over the later ones.
\<close>

definition is_old :: "env \<Rightarrow> int \<Rightarrow> reminder \<Rightarrow> bool" where
  "is_old e cutoff r = (status r \<noteq> Active \<and> getTime e (created r) < cutoff)"

fun clear_loop :: "env \<Rightarrow> int \<Rightarrow> (string \<times> reminder) list \<Rightarrow> store \<times> nat \<Rightarrow> store \<times> nat" where
  "clear_loop e cutoff [] (rs, cnt) = (rs, cnt)"
| "clear_loop e cutoff ((k, r) # es) (rs, cnt) =
     (if is_old e cutoff r then clear_loop e cutoff es (AList.delete k rs, cnt + 1)
      else clear_loop e cutoff es (rs, cnt))"

definition cutoff_of :: "env \<Rightarrow> int option \<Rightarrow> int" where
  "cutoff_of e days =
     date_now e - (case days of None \<Rightarrow> 7 | Some d \<Rightarrow> d) * 24 * 60 * 60 * 1000"

definition clearOldReminders :: "env \<Rightarrow> int option \<Rightarrow> manager \<Rightarrow> nat \<times> manager" where
  "clearOldReminders e days m =
     (let cutoff = cutoff_of e days;
          (rs, cnt) = clear_loop e cutoff (reminders m) (reminders m, 0);
          m1 = m\<lparr>reminders := rs\<rparr>
      in (cnt, if cnt > 0 then saveReminders e m1 else m1))"

subsection \<open>Sequences of operations\<close>

text \<open>
  The operations the dispatcher can invoke, each with the answers of the runtime for
  that call. \<^verbatim>\<open>check_reminders\<close> only reads.
\<close>

datatype op =
    Add string "priority option"
  | List "string option"
  | Complete string
  | Delete string
  | Move string "string option"
  | Purge "int option"

fun step :: "env \<Rightarrow> op \<Rightarrow> manager \<Rightarrow> manager" where
  "step e (Add cont prio) m = snd (addReminder e cont prio m)"
| "step e (List flt) m = m"
| "step e (Complete rid) m = snd (completeReminder e rid m)"
| "step e (Delete rid) m = snd (deleteReminder e rid m)"
| "step e (Move rid note) m = snd (moveToNotes e rid note m)"
| "step e (Purge days) m = snd (clearOldReminders e days m)"

fun run :: "(env \<times> op) list \<Rightarrow> manager \<Rightarrow> manager" where
  "run [] m = m"
| "run ((e, x) # xs) m = run xs (step e x m)"

text \<open>\<open>every_step P xs m\<close>: \<open>P\<close> holds of each step of the run of \<open>xs\<close> from \<open>m\<close>.\<close>

fun every_step ::
  "(env \<Rightarrow> op \<Rightarrow> manager \<Rightarrow> manager \<Rightarrow> bool) \<Rightarrow> (env \<times> op) list \<Rightarrow> manager \<Rightarrow> bool" where
  "every_step P [] m = True"
| "every_step P ((e, x) # xs) m = (P e x m (step e x m) \<and> every_step P xs (step e x m))"

subsection \<open>Notions used in the properties\<close>

text \<open>The records \<^verbatim>\<open>check_reminders\<close> is to show for a filter.\<close>

definition selected :: "string \<Rightarrow> reminder \<Rightarrow> bool" where
  "selected f r = (status r = Active \<and> (f = ''all'' \<or> priority_str (priority r) = f))"

text \<open>The pair the comparison function of \<^verbatim>\<open>getReminders\<close> orders by.\<close>

definition sort_key_of :: "(string \<Rightarrow> int) \<Rightarrow> reminder \<Rightarrow> int \<times> int" where
  "sort_key_of gt r = (priorityOrder (priority r), gt (created r))"

text \<open>
  The shape of every store the class builds: the keys of the map are distinct, and each
  record is stored under its own id.
\<close>

definition store_ok :: "store \<Rightarrow> bool" where
  "store_ok rs = (distinct (map fst rs) \<and> list_all (\<lambda>(k, r). rem_id r = k) rs)"

text \<open>
  What one step may do to the record stored under a key \<open>k\<close>, given the binding of
  \<open>k\<close> before and after: a record appears only through an add, as an active record
  without completion time; it disappears only through a delete of \<open>k\<close> or, when it is
  not active, through a purge; and it changes only from active to completed (by complete,
  which sets the completion time) or from active to moved (by a move whose hand-off to
  the notes directory succeeded).
\<close>

fun handed_off :: "env \<Rightarrow> string \<Rightarrow> reminder \<Rightarrow> op \<Rightarrow> bool" where
  "handed_off e k r (Move rid note) =
     (rid = k \<and> sink e (note_filename e rid) (noteContent e r note) = None)"
| "handed_off e k r x = False"

fun is_add :: "op \<Rightarrow> bool" where
  "is_add (Add cont prio) = True"
| "is_add x = False"

fun is_purge :: "op \<Rightarrow> bool" where
  "is_purge (Purge days) = True"
| "is_purge x = False"

definition record_step ::
  "env \<Rightarrow> op \<Rightarrow> string \<Rightarrow> reminder option \<Rightarrow> reminder option \<Rightarrow> bool" where
  "record_step e x k before after =
     (case (before, after) of
        (None, None) \<Rightarrow> True
      | (None, Some r') \<Rightarrow>
          is_add x \<and> status r' = Active \<and> completed r' = None \<and> created r' = iso_now e
      | (Some r, None) \<Rightarrow> x = Delete k \<or> (is_purge x \<and> status r \<noteq> Active)
      | (Some r, Some r') \<Rightarrow>
          r' = r
          \<or> (x = Complete k \<and> status r = Active
               \<and> r' = r\<lparr>status := Completed, completed := Some (iso_now e)\<rparr>)
          \<or> (handed_off e k r x \<and> status r = Active \<and> r' = r\<lparr>status := Moved\<rparr>))"

subsection \<open>A concrete world for the examples\<close>

text \<open>
  \<open>iso_getTime\<close> reads the 24 characters \<^verbatim>\<open>YYYY-MM-DDTHH:mm:ss.sssZ\<close> that
  \<^verbatim>\<open>toISOString\<close> writes and gives the milliseconds since the epoch, as
  \<^verbatim>\<open>new Date(s).getTime()\<close> does on such a string. It is used in the examples only;
  the properties hold for every \<open>getTime\<close>.
\<close>

definition days_from_civil :: "int \<Rightarrow> int \<Rightarrow> int \<Rightarrow> int" where
  "days_from_civil y m d =
     (let y' = (if m \<le> 2 then y - 1 else y);
          era = y' div 400;
          yoe = y' - era * 400;
          doy = (153 * (if m > 2 then m - 3 else m + 9) + 2) div 5 + d - 1;
          doe = yoe * 365 + yoe div 4 - yoe div 100 + doy
      in era * 146097 + doe - 719468)"

definition iso_getTime :: "string \<Rightarrow> int" where
  "iso_getTime s =
     (let n = (\<lambda>i len. num_val (take len (drop i s)))
      in (((days_from_civil (n 0 4) (n 5 2) (n 8 2) * 24 + n 11 2) * 60 + n 14 2) * 60 + n 17 2)
           * 1000 + n 20 3)"

text \<open>The runtime at 2026-11-02 08:00 UTC, with a working disk and a working notes directory.\<close>

definition ex_env :: env where
  "ex_env = \<lparr>getTime = iso_getTime, date_now = 1793606400000,
              iso_now = ''2026-11-02T08:00:00.000Z'', random36 = ''k3x9q'',
              write_ok = True, sink = (\<lambda>name text. None)\<rparr>"

text \<open>The same instant with a notes directory that cannot be written.\<close>

definition ex_env_nosink :: env where
  "ex_env_nosink = ex_env\<lparr>sink := (\<lambda>name text. Some ''Error: EACCES: permission denied'')\<rparr>"

text \<open>
  An earlier instant at which the clock and the random suffix give the id that
  \<open>ex_high1\<close> below already has.
\<close>

definition ex_env_clash :: env where
  "ex_env_clash = ex_env\<lparr>date_now := 1793523600000, iso_now := ''2026-11-01T09:00:00.000Z'',
                          random36 := ''d3e4f''\<rparr>"

text \<open>
  A store of five reminders, in insertion order: a low one, two high ones created in the
  same millisecond, a normal one, and one that was completed a month ago.
\<close>

definition ex_low :: reminder where
  "ex_low = \<lparr>rem_id = ''rem_1793520000000_a1b2c'', content = ''water the plants'',
              priority = Low, created = ''2026-11-01T08:00:00.000Z'',
              completed = None, status = Active\<rparr>"

definition ex_high1 :: reminder where
  "ex_high1 = \<lparr>rem_id = ''rem_1793523600000_d3e4f'', content = ''test the integration'',
                priority = High, created = ''2026-11-01T09:00:00.000Z'',
                completed = None, status = Active\<rparr>"

definition ex_high2 :: reminder where
  "ex_high2 = \<lparr>rem_id = ''rem_1793523600000_g5h6i'', content = ''call the bank'',
                priority = High, created = ''2026-11-01T09:00:00.000Z'',
                completed = None, status = Active\<rparr>"

definition ex_normal :: reminder where
  "ex_normal = \<lparr>rem_id = ''rem_1793516400000_j7k8l'', content = ''read the paper'',
                 priority = Normal, created = ''2026-11-01T07:00:00.000Z'',
                 completed = None, status = Active\<rparr>"

definition ex_done :: reminder where
  "ex_done = \<lparr>rem_id = ''rem_1790841600000_m9n0o'', content = ''renew the passport'',
               priority = High, created = ''2026-10-01T08:00:00.000Z'',
               completed = Some ''2026-10-02T08:00:00.000Z'', status = Completed\<rparr>"

definition ex_store :: store where
  "ex_store = map (\<lambda>r. (rem_id r, r)) [ex_low, ex_high1, ex_high2, ex_normal, ex_done]"

definition ex_manager :: manager where
  "ex_manager = \<lparr>reminders = ex_store, disk = Json ex_store\<rparr>"

section \<open>Properties\<close>

subsection \<open>Sorting with the comparison function\<close>

lemma compare_reminders_le:
  "compare_reminders gt a b \<le> 0 \<longleftrightarrow> sort_key_of gt a \<le> sort_key_of gt b"
  by (auto simp: compare_reminders_def sort_key_of_def less_eq_prod_def Let_def)

lemma insert_by_insort_key:
  assumes "\<And>a b. cmp a b \<le> 0 \<longleftrightarrow> k a \<le> k b"
  shows "insert_by cmp x xs = insort_key k x xs"
  by (induction xs) (simp_all add: assms)

lemma sort_by_sort_key:
  assumes "\<And>a b. cmp a b \<le> 0 \<longleftrightarrow> k a \<le> k b"
  shows "sort_by cmp xs = sort_key k xs"
  unfolding sort_by_def sort_key_def
  by (induction xs) (simp_all add: insert_by_insort_key [OF assms])

lemma sort_by_compare:
  "sort_by (compare_reminders gt) xs = sort_key (sort_key_of gt) xs"
  by (rule sort_by_sort_key) (rule compare_reminders_le)

lemma priorityOrder_inj: "priorityOrder p = priorityOrder q \<longleftrightarrow> p = q"
  by (cases p; cases q) simp_all

lemma priority_str_range: "priority_str p \<in> {''high'', ''normal'', ''low''}"
  by (cases p) simp_all

lemma sorted_compare:
  "sorted_wrt (\<lambda>a b. priorityOrder (priority a) < priorityOrder (priority b)
       \<or> (priority a = priority b \<and> gt (created a) \<le> gt (created b)))
     (sort_by (compare_reminders gt) xs)"
proof -
  have "sorted (map (sort_key_of gt) (sort_key (sort_key_of gt) xs))"
    by (rule sorted_sort_key)
  then have "sorted_wrt (\<lambda>a b. sort_key_of gt a \<le> sort_key_of gt b) (sort_key (sort_key_of gt) xs)"
    by (simp add: sorted_map)
  then show ?thesis
    unfolding sort_by_compare
    by (rule sorted_wrt_mono_rel [rotated])
       (auto simp: sort_key_of_def less_eq_prod_def priorityOrder_inj)
qed

lemma stable_compare:
  "filter (\<lambda>r. priority r = p \<and> gt (created r) = t) (sort_by (compare_reminders gt) xs)
   = filter (\<lambda>r. priority r = p \<and> gt (created r) = t) xs"
proof -
  have "(\<lambda>r. priority r = p \<and> gt (created r) = t) = (\<lambda>r. sort_key_of gt r = (priorityOrder p, t))"
    by (auto simp: sort_key_of_def priorityOrder_inj fun_eq_iff)
  then show ?thesis
    by (simp add: sort_by_compare sort_key_stable)
qed

lemma mset_sort_by_compare: "mset (sort_by (compare_reminders gt) xs) = mset xs"
  by (simp add: sort_by_compare)

lemma set_sort_by_compare: "set (sort_by (compare_reminders gt) xs) = set xs"
  by (simp add: sort_by_compare)

subsection \<open>getReminders\<close>

lemma getReminders_eq:
  "getReminders e m (Some f) =
     sort_by (compare_reminders (getTime e)) (filter (selected f) (map snd (reminders m)))"
proof (cases "f = ''all''")
  case True
  then have "selected f = (\<lambda>r. status r = Active)"
    by (simp add: selected_def fun_eq_iff)
  with True show ?thesis
    by (simp add: getReminders_def)
next
  case False
  then have "selected f = (\<lambda>r. status r = Active \<and> priority_str (priority r) = f)"
    by (simp add: selected_def fun_eq_iff)
  with False show ?thesis
    by (simp add: getReminders_def)
qed

lemma getReminders_default: "getReminders e m None = getReminders e m (Some ''all'')"
  by (simp add: getReminders_def)

lemma set_getReminders:
  "set (getReminders e m (Some f)) = {r \<in> snd ` set (reminders m). selected f r}"
  by (auto simp: getReminders_eq set_sort_by_compare)

text \<open>
  C1. For a filter among all, high, normal and low, \<^verbatim>\<open>getReminders\<close> returns
  exactly the selected records (the active ones, of the given priority when the filter
  is a priority), ordered by priority rank and then by creation time, records that agree
  on both in the order of the map; when nothing is selected the result is empty. A
  missing filter is the filter all.
\<close>

theorem getReminders_selected_sorted_stable:
  assumes "f \<in> {''all'', ''high'', ''normal'', ''low''}"
  shows "mset (getReminders e m (Some f)) = mset (filter (selected f) (map snd (reminders m)))
    \<and> sorted_wrt (\<lambda>a b. priorityOrder (priority a) < priorityOrder (priority b)
          \<or> (priority a = priority b \<and> getTime e (created a) \<le> getTime e (created b)))
        (getReminders e m (Some f))
    \<and> (\<forall>p t. filter (\<lambda>r. priority r = p \<and> getTime e (created r) = t) (getReminders e m (Some f))
             = filter (\<lambda>r. priority r = p \<and> getTime e (created r) = t)
                 (filter (selected f) (map snd (reminders m))))
    \<and> (filter (selected f) (map snd (reminders m)) = [] \<longrightarrow> getReminders e m (Some f) = [])
    \<and> getReminders e m None = getReminders e m (Some ''all'')"
proof -
  let ?chosen = "filter (selected f) (map snd (reminders m))"
  have eq: "getReminders e m (Some f) = sort_by (compare_reminders (getTime e)) ?chosen"
    by (rule getReminders_eq)
  have "mset (getReminders e m (Some f)) = mset ?chosen"
    unfolding eq by (rule mset_sort_by_compare)
  moreover have "sorted_wrt (\<lambda>a b. priorityOrder (priority a) < priorityOrder (priority b)
          \<or> (priority a = priority b \<and> getTime e (created a) \<le> getTime e (created b)))
        (getReminders e m (Some f))"
    unfolding eq by (rule sorted_compare)
  moreover have "filter (\<lambda>r. priority r = p \<and> getTime e (created r) = t) (getReminders e m (Some f))
             = filter (\<lambda>r. priority r = p \<and> getTime e (created r) = t) ?chosen" for p t
    unfolding eq by (rule stable_compare)
  moreover have "?chosen = [] \<longrightarrow> getReminders e m (Some f) = []"
    unfolding eq by (simp add: sort_by_def)
  ultimately show ?thesis
    using getReminders_default by blast
qed

theorem getReminders_selected_sorted_stable_witness:
  "''high'' \<in> {''all'', ''high'', ''normal'', ''low''}
   \<and> filter (selected ''high'') (map snd (reminders ex_manager)) = [ex_high1, ex_high2]
   \<and> mset (getReminders ex_env ex_manager (Some ''high'')) = mset [ex_high1, ex_high2]
   \<and> getReminders ex_env ex_manager (Some ''all'') = [ex_high1, ex_high2, ex_normal, ex_low]
   \<and> filter (selected ''high'')
        (map snd (reminders \<lparr>reminders = [(rem_id ex_low, ex_low), (rem_id ex_done, ex_done)],
                              disk = NoFile\<rparr>)) = []
   \<and> getReminders ex_env \<lparr>reminders = [(rem_id ex_low, ex_low), (rem_id ex_done, ex_done)],
                            disk = NoFile\<rparr> (Some ''high'') = []"
proof -
  have h: "''high'' \<in> {''all'', ''high'', ''normal'', ''low''}"
    by simp
  have n: "filter (selected ''high'')
        (map snd (reminders \<lparr>reminders = [(rem_id ex_low, ex_low), (rem_id ex_done, ex_done)],
                              disk = NoFile\<rparr>)) = []"
    by code_simp
  from getReminders_selected_sorted_stable [OF h, of ex_env
      "\<lparr>reminders = [(rem_id ex_low, ex_low), (rem_id ex_done, ex_done)], disk = NoFile\<rparr>"] n
  have e: "getReminders ex_env \<lparr>reminders = [(rem_id ex_low, ex_low), (rem_id ex_done, ex_done)],
                            disk = NoFile\<rparr> (Some ''high'') = []"
    by blast
  have c: "filter (selected ''high'') (map snd (reminders ex_manager)) = [ex_high1, ex_high2]"
    by code_simp
  have a: "getReminders ex_env ex_manager (Some ''all'') = [ex_high1, ex_high2, ex_normal, ex_low]"
    by code_simp
  from getReminders_selected_sorted_stable [OF h, of ex_env ex_manager]
  have m: "mset (getReminders ex_env ex_manager (Some ''high''))
      = mset (filter (selected ''high'') (map snd (reminders ex_manager)))"
    by blast
  from h c m [unfolded c] a n e show ?thesis
    by blast
qed

text \<open>
  C9. A filter that is neither all nor a priority selects nothing: the result is the
  empty list, not an error and not the list of all active records.
\<close>

theorem getReminders_unknown_filter:
  assumes "f \<notin> {''all'', ''high'', ''normal'', ''low''}"
  shows "getReminders e m (Some f) = []"
proof -
  have "\<not> selected f r" for r
    using assms priority_str_range [of "priority r"] by (auto simp: selected_def)
  then have "filter (selected f) (map snd (reminders m)) = []"
    by simp
  then show ?thesis
    by (simp add: getReminders_eq sort_by_def)
qed

theorem getReminders_unknown_filter_witness:
  "''urgent'' \<notin> {''all'', ''high'', ''normal'', ''low''}
   \<and> getReminders ex_env ex_manager (Some ''urgent'') = []
   \<and> getReminders ex_env ex_manager (Some '''') = []
   \<and> getReminders ex_env ex_manager (Some ''all'') \<noteq> []"
proof -
  have h: "''urgent'' \<notin> {''all'', ''high'', ''normal'', ''low''}"
    by simp
  have h': "'''' \<notin> {''all'', ''high'', ''normal'', ''low''}"
    by simp
  have a: "getReminders ex_env ex_manager (Some ''all'') \<noteq> []"
    by code_simp
  from getReminders_unknown_filter [OF h, of ex_env ex_manager]
       getReminders_unknown_filter [OF h', of ex_env ex_manager] h a
  show ?thesis by simp
qed

subsection \<open>The map and its persisted form\<close>

lemma update_new_key:
  "k \<notin> fst ` set al \<Longrightarrow> AList.update k v al = al @ [(k, v)]"
  by (induction al) auto

lemma fold_update_distinct:
  "distinct (map fst (acc @ es)) \<Longrightarrow>
     foldl (\<lambda>m (k, v). AList.update k v m) acc es = acc @ es"
proof (induction es arbitrary: acc)
  case Nil
  then show ?case by simp
next
  case (Cons p es)
  obtain k v where p: "p = (k, v)" by (cases p)
  from Cons.prems p have fresh: "k \<notin> fst ` set acc"
    by auto
  from Cons.prems p have "distinct (map fst ((acc @ [(k, v)]) @ es))"
    by simp
  from Cons.IH [OF this] fresh p show ?case
    by (simp add: update_new_key)
qed

lemma new_Map_distinct: "distinct (map fst es) \<Longrightarrow> new_Map es = es"
  using fold_update_distinct [of "[]" es] by (simp add: new_Map_def)

lemma mset_own_properties: "mset (own_properties ps) = mset ps"
  by (simp add: own_properties_def)

lemma set_own_properties: "set (own_properties ps) = set ps"
  using mset_own_properties [of ps] by (metis set_mset_mset)

lemma distinct_own_properties:
  "distinct (map fst (own_properties ps)) \<longleftrightarrow> distinct (map fst ps)"
proof -
  have "mset (map fst (own_properties ps)) = mset (map fst ps)"
    by (simp add: mset_own_properties)
  then show ?thesis
    by (rule mset_eq_imp_distinct_iff)
qed

lemma own_properties_no_index:
  assumes "\<forall>k \<in> fst ` set ps. \<not> is_array_index k"
  shows "own_properties ps = ps"
proof -
  from assms have "filter (\<lambda>p. is_array_index (fst p)) ps = []"
    by (auto simp: filter_empty_conv)
  moreover from assms have "filter (\<lambda>p. \<not> is_array_index (fst p)) ps = ps"
    by (auto simp: filter_id_conv)
  ultimately show ?thesis
    by (simp add: own_properties_def)
qed

lemma Object_fromEntries_distinct:
  "distinct (map fst es) \<Longrightarrow> Object_fromEntries es = own_properties es"
  using fold_update_distinct [of "[]" es] by (simp add: Object_fromEntries_def)

lemma map_of_Object_fromEntries:
  assumes "distinct (map fst es)"
  shows "map_of (Object_fromEntries es) = map_of es"
proof -
  have "distinct (map fst (own_properties es))"
    using assms by (simp add: distinct_own_properties)
  then show ?thesis
    using assms by (simp add: Object_fromEntries_distinct map_of_inject_set set_own_properties)
qed

lemma reload_saved:
  assumes "distinct (map fst rs)"
  shows "new_Map (Object_entries (Object_fromEntries rs)) = own_properties rs"
  using assms
  by (simp add: Object_entries_def Object_fromEntries_distinct new_Map_distinct
      distinct_own_properties)

subsection \<open>saveReminders and loadReminders\<close>

lemma reminders_saveReminders [simp]: "reminders (saveReminders e m) = reminders m"
  by (simp add: saveReminders_def)

lemma disk_saveReminders:
  "disk (saveReminders e m) = (if write_ok e then Json (Object_fromEntries (reminders m)) else disk m)"
  by (simp add: saveReminders_def)

text \<open>
  C8. Writing the map with \<^verbatim>\<open>saveReminders\<close> and constructing a manager from the
  file that was written gives the same records under the same ids: the two maps agree as
  functions from ids to records and as sets of entries, and the keys stay distinct. The
  order of the entries is kept as well unless an id is an array index, which
  \<^verbatim>\<open>Object.fromEntries\<close> moves to the front.
\<close>

theorem save_then_load_same_records:
  assumes "distinct (map fst (reminders m))" and "write_ok e"
  shows "map_of (reminders (new_ReminderManager (disk (saveReminders e m)))) = map_of (reminders m)
    \<and> set (reminders (new_ReminderManager (disk (saveReminders e m)))) = set (reminders m)
    \<and> distinct (map fst (reminders (new_ReminderManager (disk (saveReminders e m)))))
    \<and> ((\<forall>k \<in> fst ` set (reminders m). \<not> is_array_index k) \<longrightarrow>
          reminders (new_ReminderManager (disk (saveReminders e m))) = reminders m)
    \<and> reminders (loadReminders (saveReminders e m))
        = reminders (new_ReminderManager (disk (saveReminders e m)))"
proof -
  let ?rs = "reminders m"
  have loaded: "reminders (new_ReminderManager (disk (saveReminders e m))) = own_properties ?rs"
    using assms by (simp add: new_ReminderManager_def loadReminders_def disk_saveReminders reload_saved)
  have again: "reminders (loadReminders (saveReminders e m)) = own_properties ?rs"
    using assms by (simp add: loadReminders_def disk_saveReminders reload_saved)
  have d: "distinct (map fst (own_properties ?rs))"
    using assms(1) by (simp add: distinct_own_properties)
  have s: "set (own_properties ?rs) = set ?rs"
    by (rule set_own_properties)
  have "map_of (own_properties ?rs) = map_of ?rs"
    using d assms(1) s by (simp add: map_of_inject_set)
  moreover have "(\<forall>k \<in> fst ` set ?rs. \<not> is_array_index k) \<longrightarrow> own_properties ?rs = ?rs"
    using own_properties_no_index by blast
  ultimately show ?thesis
    using d s by (simp add: loaded again)
qed

theorem save_then_load_same_records_witness:
  "distinct (map fst (reminders ex_manager)) \<and> write_ok ex_env
   \<and> filter is_array_index (map fst (reminders ex_manager)) = []
   \<and> map_of (reminders (new_ReminderManager (disk (saveReminders ex_env ex_manager))))
       = map_of (reminders ex_manager)
   \<and> reminders (new_ReminderManager (disk (saveReminders ex_env ex_manager)))
       = reminders ex_manager
   \<and> reminders (new_ReminderManager (disk (saveReminders ex_env
          \<lparr>reminders = [(''10'', ex_low\<lparr>rem_id := ''10''\<rparr>), (''9'', ex_high1\<lparr>rem_id := ''9''\<rparr>)],
           disk = NoFile\<rparr>)))
       = [(''9'', ex_high1\<lparr>rem_id := ''9''\<rparr>), (''10'', ex_low\<lparr>rem_id := ''10''\<rparr>)]"
proof -
  have d: "distinct (map fst (reminders ex_manager))"
    by code_simp
  have w: "write_ok ex_env"
    by code_simp
  have f: "filter is_array_index (map fst (reminders ex_manager)) = []"
    by code_simp
  then have n: "\<forall>k \<in> fst ` set (reminders ex_manager). \<not> is_array_index k"
    by (simp add: filter_empty_conv)
  have x: "reminders (new_ReminderManager (disk (saveReminders ex_env
          \<lparr>reminders = [(''10'', ex_low\<lparr>rem_id := ''10''\<rparr>), (''9'', ex_high1\<lparr>rem_id := ''9''\<rparr>)],
           disk = NoFile\<rparr>)))
       = [(''9'', ex_high1\<lparr>rem_id := ''9''\<rparr>), (''10'', ex_low\<lparr>rem_id := ''10''\<rparr>)]"
    by code_simp
  note t = save_then_load_same_records [OF d w]
  from t have 1: "map_of (reminders (new_ReminderManager (disk (saveReminders ex_env ex_manager))))
       = map_of (reminders ex_manager)"
    by blast
  from t n have 2: "reminders (new_ReminderManager (disk (saveReminders ex_env ex_manager)))
       = reminders ex_manager"
    by blast
  from d w f 1 2 x show ?thesis
    by blast
qed

subsection \<open>completeReminder\<close>

lemma completeReminder_active:
  assumes "map_of (reminders m) k = Some r" and "status r = Active"
  shows "completeReminder e k m =
     (True, saveReminders e
        (m\<lparr>reminders :=
             AList.update k (r\<lparr>status := Completed, completed := Some (iso_now e)\<rparr>) (reminders m)\<rparr>))"
  using assms by (simp add: completeReminder_def)

lemma completeReminder_refused:
  assumes "\<not> (\<exists>r. map_of (reminders m) k = Some r \<and> status r = Active)"
  shows "completeReminder e k m = (False, m)"
  using assms by (auto simp: completeReminder_def split: option.splits)

lemma update_keys_present:
  "map_of al k = Some v \<Longrightarrow> map fst (AList.update k v' al) = map fst al"
  by (auto simp: update_keys dest: map_of_SomeD intro: rev_image_eqI)

text \<open>
  C4. \<^verbatim>\<open>completeReminder\<close> returns true exactly when the id is bound to an active
  record. Then that record gets status completed and the current time as completion
  time, its other fields and its place in the map stay, and every other id keeps its
  record. Otherwise the manager is unchanged. A second call on the same id returns
  false.
\<close>

theorem completeReminder_contract:
  "(fst (completeReminder e k m) \<longleftrightarrow> (\<exists>r. map_of (reminders m) k = Some r \<and> status r = Active))
   \<and> (\<forall>r. map_of (reminders m) k = Some r \<and> status r = Active \<longrightarrow>
         map_of (reminders (snd (completeReminder e k m))) k
           = Some (r\<lparr>status := Completed, completed := Some (iso_now e)\<rparr>)
         \<and> (\<forall>k'. k' \<noteq> k \<longrightarrow>
               map_of (reminders (snd (completeReminder e k m))) k' = map_of (reminders m) k')
         \<and> map fst (reminders (snd (completeReminder e k m))) = map fst (reminders m))
   \<and> (\<not> fst (completeReminder e k m) \<longrightarrow> snd (completeReminder e k m) = m)
   \<and> \<not> fst (completeReminder e' k (snd (completeReminder e k m)))"
proof (cases "\<exists>r. map_of (reminders m) k = Some r \<and> status r = Active")
  case True
  then obtain r where r: "map_of (reminders m) k = Some r" "status r = Active"
    by blast
  let ?r' = "r\<lparr>status := Completed, completed := Some (iso_now e)\<rparr>"
  let ?m' = "snd (completeReminder e k m)"
  have rs: "reminders ?m' = AList.update k ?r' (reminders m)"
    by (simp add: completeReminder_active [OF r])
  have after: "map_of (reminders ?m') k = Some ?r'"
    by (simp add: rs update_conv')
  have others: "map_of (reminders ?m') k' = map_of (reminders m) k'" if "k' \<noteq> k" for k'
    using that by (simp add: rs update_conv')
  have keys: "map fst (reminders ?m') = map fst (reminders m)"
    by (simp add: rs update_keys_present [OF r(1)])
  have "\<not> (\<exists>x. map_of (reminders ?m') k = Some x \<and> status x = Active)"
    by (simp add: after)
  then have "completeReminder e' k ?m' = (False, ?m')"
    by (rule completeReminder_refused)
  then have second: "\<not> fst (completeReminder e' k ?m')"
    by (simp only: fst_conv not_False_eq_True)
  have first: "fst (completeReminder e k m)"
    by (simp add: completeReminder_active [OF r])
  from r first after others keys second show ?thesis
    by simp
next
  case False
  then have ceq: "completeReminder e k m = (False, m)"
    by (rule completeReminder_refused)
  from False have ceq': "completeReminder e' k m = (False, m)"
    by (rule completeReminder_refused)
  show ?thesis
  proof (intro conjI)
    show "fst (completeReminder e k m) \<longleftrightarrow> (\<exists>r. map_of (reminders m) k = Some r \<and> status r = Active)"
      using False by (simp add: ceq)
    show "\<forall>r. map_of (reminders m) k = Some r \<and> status r = Active \<longrightarrow>
         map_of (reminders (snd (completeReminder e k m))) k
           = Some (r\<lparr>status := Completed, completed := Some (iso_now e)\<rparr>)
         \<and> (\<forall>k'. k' \<noteq> k \<longrightarrow>
               map_of (reminders (snd (completeReminder e k m))) k' = map_of (reminders m) k')
         \<and> map fst (reminders (snd (completeReminder e k m))) = map fst (reminders m)"
      using False by blast
    show "\<not> fst (completeReminder e k m) \<longrightarrow> snd (completeReminder e k m) = m"
      by (simp add: ceq)
    show "\<not> fst (completeReminder e' k (snd (completeReminder e k m)))"
      by (simp add: ceq ceq')
  qed
qed

theorem completeReminder_contract_witness:
  "map_of (reminders ex_manager) (rem_id ex_low) = Some ex_low \<and> status ex_low = Active
   \<and> fst (completeReminder ex_env (rem_id ex_low) ex_manager)
   \<and> map_of (reminders (snd (completeReminder ex_env (rem_id ex_low) ex_manager))) (rem_id ex_low)
       = Some (ex_low\<lparr>status := Completed, completed := Some ''2026-11-02T08:00:00.000Z''\<rparr>)
   \<and> \<not> fst (completeReminder ex_env (rem_id ex_low)
             (snd (completeReminder ex_env (rem_id ex_low) ex_manager)))
   \<and> \<not> fst (completeReminder ex_env (rem_id ex_done) ex_manager)
   \<and> snd (completeReminder ex_env (rem_id ex_done) ex_manager) = ex_manager
   \<and> \<not> fst (completeReminder ex_env ''rem_0_zzzzz'' ex_manager)"
proof -
  have a: "map_of (reminders ex_manager) (rem_id ex_low) = Some ex_low \<and> status ex_low = Active"
    by code_simp
  have n: "iso_now ex_env = ''2026-11-02T08:00:00.000Z''"
    by code_simp
  have d: "\<not> (\<exists>r. map_of (reminders ex_manager) (rem_id ex_done) = Some r \<and> status r = Active)"
  proof -
    have "map_of (reminders ex_manager) (rem_id ex_done) = Some ex_done \<and> status ex_done = Completed"
      by code_simp
    then show ?thesis by auto
  qed
  have z: "\<not> (\<exists>r. map_of (reminders ex_manager) ''rem_0_zzzzz'' = Some r \<and> status r = Active)"
  proof -
    have "map_of (reminders ex_manager) ''rem_0_zzzzz'' = None"
      by code_simp
    then show ?thesis by auto
  qed
  note low = completeReminder_contract [of ex_env "rem_id ex_low" ex_manager ex_env]
  from low a have 1: "fst (completeReminder ex_env (rem_id ex_low) ex_manager)"
    by blast
  from low a have 2: "map_of (reminders (snd (completeReminder ex_env (rem_id ex_low) ex_manager)))
       (rem_id ex_low) = Some (ex_low\<lparr>status := Completed, completed := Some (iso_now ex_env)\<rparr>)"
    by blast
  from low have 3: "\<not> fst (completeReminder ex_env (rem_id ex_low)
             (snd (completeReminder ex_env (rem_id ex_low) ex_manager)))"
    by blast
  note dn = completeReminder_contract [of ex_env "rem_id ex_done" ex_manager ex_env]
  from dn d have 4: "\<not> fst (completeReminder ex_env (rem_id ex_done) ex_manager)"
    by blast
  with dn have 5: "snd (completeReminder ex_env (rem_id ex_done) ex_manager) = ex_manager"
    by blast
  from completeReminder_contract [of ex_env "''rem_0_zzzzz''" ex_manager ex_env] z
  have 6: "\<not> fst (completeReminder ex_env ''rem_0_zzzzz'' ex_manager)"
    by blast
  from a 1 2 [unfolded n] 3 4 5 6 show ?thesis
    by blast
qed

subsection \<open>deleteReminder\<close>

text \<open>
  C6. \<^verbatim>\<open>deleteReminder\<close> returns true exactly when the id is a key of the map,
  whatever the status of its record; then the entry is gone and the other entries stay
  as they were, in order. When the id is not a key the manager is unchanged.
\<close>

theorem deleteReminder_contract:
  "(fst (deleteReminder e k m) \<longleftrightarrow> k \<in> fst ` set (reminders m))
   \<and> (k \<in> fst ` set (reminders m) \<longrightarrow>
         map_of (reminders (snd (deleteReminder e k m))) k = None
         \<and> reminders (snd (deleteReminder e k m)) = filter (\<lambda>p. fst p \<noteq> k) (reminders m))
   \<and> (k \<notin> fst ` set (reminders m) \<longrightarrow> snd (deleteReminder e k m) = m)"
proof -
  have del: "AList.delete k (reminders m) = filter (\<lambda>p. fst p \<noteq> k) (reminders m)"
    by (auto simp: AList.delete_eq intro: filter_cong)
  have ret: "fst (deleteReminder e k m) \<longleftrightarrow> k \<in> fst ` set (reminders m)"
    by (simp add: deleteReminder_def Let_def map_of_eq_None_iff)
  have rs: "reminders (snd (deleteReminder e k m)) = AList.delete k (reminders m)"
    by (simp add: deleteReminder_def Let_def)
  have gone: "map_of (reminders (snd (deleteReminder e k m))) k = None"
    by (simp add: rs delete_conv')
  have absent: "snd (deleteReminder e k m) = m" if "k \<notin> fst ` set (reminders m)"
    using that by (simp add: deleteReminder_def Let_def map_of_eq_None_iff)
  from ret rs gone absent del show ?thesis
    by simp
qed

theorem deleteReminder_contract_witness:
  "rem_id ex_done \<in> fst ` set (reminders ex_manager)
   \<and> status ex_done = Completed
   \<and> fst (deleteReminder ex_env (rem_id ex_done) ex_manager)
   \<and> reminders (snd (deleteReminder ex_env (rem_id ex_done) ex_manager))
       = [(rem_id ex_low, ex_low), (rem_id ex_high1, ex_high1), (rem_id ex_high2, ex_high2),
          (rem_id ex_normal, ex_normal)]
   \<and> ''rem_0_zzzzz'' \<notin> fst ` set (reminders ex_manager)
   \<and> \<not> fst (deleteReminder ex_env ''rem_0_zzzzz'' ex_manager)
   \<and> snd (deleteReminder ex_env ''rem_0_zzzzz'' ex_manager) = ex_manager"
proof -
  have p: "rem_id ex_done \<in> fst ` set (reminders ex_manager)"
    by code_simp
  have s: "status ex_done = Completed"
    by code_simp
  have f: "filter (\<lambda>p. fst p \<noteq> rem_id ex_done) (reminders ex_manager)
       = [(rem_id ex_low, ex_low), (rem_id ex_high1, ex_high1), (rem_id ex_high2, ex_high2),
          (rem_id ex_normal, ex_normal)]"
    by code_simp
  have a: "''rem_0_zzzzz'' \<notin> fst ` set (reminders ex_manager)"
    by code_simp
  note dn = deleteReminder_contract [of ex_env "rem_id ex_done" ex_manager]
  from dn p have 1: "fst (deleteReminder ex_env (rem_id ex_done) ex_manager)"
    by blast
  from dn p have "reminders (snd (deleteReminder ex_env (rem_id ex_done) ex_manager))
       = filter (\<lambda>p. fst p \<noteq> rem_id ex_done) (reminders ex_manager)"
    by blast
  then have 2: "reminders (snd (deleteReminder ex_env (rem_id ex_done) ex_manager))
       = [(rem_id ex_low, ex_low), (rem_id ex_high1, ex_high1), (rem_id ex_high2, ex_high2),
          (rem_id ex_normal, ex_normal)]"
    by (rule trans) (rule f)
  note ab = deleteReminder_contract [of ex_env "''rem_0_zzzzz''" ex_manager]
  from ab a have 3: "\<not> fst (deleteReminder ex_env ''rem_0_zzzzz'' ex_manager)"
    by blast
  from ab a have 4: "snd (deleteReminder ex_env ''rem_0_zzzzz'' ex_manager) = ex_manager"
    by blast
  from p s 1 2 a 3 4 show ?thesis
    by blast
qed

subsection \<open>Stores in which every record sits under its own id\<close>

lemma store_ok_update:
  assumes "store_ok rs" and "rem_id r = k"
  shows "store_ok (AList.update k r rs)"
proof -
  have "list_all (\<lambda>(k, r). rem_id r = k) (AList.update k r rs)"
    using assms by (induction rs) (auto simp: store_ok_def)
  then show ?thesis
    using assms(1) by (simp add: store_ok_def distinct_update)
qed

lemma store_ok_filter: "store_ok rs \<Longrightarrow> store_ok (filter P rs)"
  by (simp add: store_ok_def distinct_map_filter list_all_iff)

lemma store_ok_delete: "store_ok rs \<Longrightarrow> store_ok (AList.delete k rs)"
  by (simp add: AList.delete_eq store_ok_filter)

lemma store_ok_lookup:
  assumes "store_ok rs" and "(k', x) \<in> set rs" and "rem_id x = k"
  shows "map_of rs k = Some x"
proof -
  from assms have "k' = k"
    by (auto simp: store_ok_def list_all_iff)
  with assms show ?thesis
    by (simp add: store_ok_def)
qed

lemma listed_is_stored:
  assumes "x \<in> set (getReminders e m flt)"
  shows "x \<in> snd ` set (reminders m) \<and> status x = Active"
proof (cases flt)
  case None
  with assms show ?thesis
    by (auto simp: getReminders_default set_getReminders selected_def)
next
  case (Some f)
  with assms show ?thesis
    by (auto simp: set_getReminders selected_def)
qed

lemma active_is_listed:
  assumes "map_of (reminders m) k = Some r" and "status r = Active"
  shows "r \<in> set (getReminders e m None)" and "r \<in> set (getReminders e m (Some ''all''))"
proof -
  from assms(1) have "(k, r) \<in> set (reminders m)"
    by (rule map_of_SomeD)
  then have "r \<in> snd ` set (reminders m)"
    by force
  with assms(2) show "r \<in> set (getReminders e m (Some ''all''))"
    by (simp add: set_getReminders selected_def)
  then show "r \<in> set (getReminders e m None)"
    by (simp add: getReminders_default)
qed

lemma listed_with_id:
  assumes "store_ok (reminders m)" and "map_of (reminders m) k = Some r"
    and "x \<in> set (getReminders e m flt)" and "rem_id x = k"
  shows "x = r"
proof -
  from listed_is_stored [OF assms(3)] obtain k' where "(k', x) \<in> set (reminders m)"
    by auto
  from store_ok_lookup [OF assms(1) this assms(4)] assms(2) show ?thesis
    by simp
qed

lemma only_one_with_id:
  assumes "store_ok rs" and "map_of rs k = Some r"
  shows "filter (\<lambda>x. rem_id x = k) (map snd rs) = [r]"
  using assms
proof (induction rs)
  case Nil
  then show ?case by simp
next
  case (Cons p rs)
  obtain k' x where p: "p = (k', x)" by (cases p)
  from Cons.prems(1) p have ok: "store_ok rs" and own: "rem_id x = k'" and new: "k' \<notin> fst ` set rs"
    by (auto simp: store_ok_def)
  show ?case
  proof (cases "k' = k")
    case True
    with Cons.prems(2) p have "x = r" by simp
    moreover have "filter (\<lambda>x. rem_id x = k) (map snd rs) = []"
    proof -
      have "rem_id y \<noteq> k" if "y \<in> snd ` set rs" for y
      proof
        assume "rem_id y = k"
        from that obtain j where "(j, y) \<in> set rs" by auto
        with ok \<open>rem_id y = k\<close> have "j = k"
          by (auto simp: store_ok_def list_all_iff)
        with \<open>(j, y) \<in> set rs\<close> new True show False
          by force
      qed
      then show ?thesis
        by (auto simp: filter_empty_conv)
    qed
    ultimately show ?thesis
      using p own True by simp
  next
    case False
    with Cons.prems(2) p have "map_of rs k = Some r" by simp
    from Cons.IH [OF ok this] p own False show ?thesis
      by simp
  qed
qed

lemma listed_once:
  assumes "store_ok (reminders m)" and "map_of (reminders m) k = Some r" and "selected f r"
  shows "filter (\<lambda>x. rem_id x = k) (getReminders e m (Some f)) = [r]"
proof -
  let ?P = "\<lambda>x. rem_id x = k"
  let ?xs = "map snd (reminders m)"
  let ?G = "getReminders e m (Some f)"
  have A: "mset (filter ?P ?G) = filter_mset ?P (mset ?G)"
    by (rule mset_filter)
  have B: "mset ?G = mset (filter (selected f) ?xs)"
    by (simp only: getReminders_eq mset_sort_by_compare)
  have C: "filter_mset ?P (mset (filter (selected f) ?xs)) = mset (filter ?P (filter (selected f) ?xs))"
    by (rule mset_filter [symmetric])
  have D: "filter ?P (filter (selected f) ?xs) = filter (selected f) (filter ?P ?xs)"
    by (simp add: conj_commute)
  have E: "filter ?P ?xs = [r]"
    using assms(1,2) by (rule only_one_with_id)
  have F: "filter (selected f) [r] = [r]"
    using assms(3) by simp
  have "mset (filter ?P ?G) = mset [r]"
    by (simp only: A B C D E F)
  then have "mset (filter ?P ?G) = {#r#}"
    by (simp only: mset.simps)
  then show ?thesis
    by (simp only: mset_single_iff)
qed

subsection \<open>addReminder\<close>

lemma addReminder_result:
  "addReminder e c p m =
     (new_id e,
      saveReminders e
        (m\<lparr>reminders :=
             AList.update (new_id e)
               \<lparr>rem_id = new_id e, content = c,
                priority = (case p of None \<Rightarrow> Normal | Some q \<Rightarrow> q),
                created = iso_now e, completed = None, status = Active\<rparr>
               (reminders m)\<rparr>))"
  by (simp add: addReminder_def Let_def)

lemma addReminder_stored:
  "map_of (reminders (snd (addReminder e c p m))) (new_id e) =
     Some \<lparr>rem_id = new_id e, content = c,
           priority = (case p of None \<Rightarrow> Normal | Some q \<Rightarrow> q),
           created = iso_now e, completed = None, status = Active\<rparr>"
  by (simp add: addReminder_result update_conv')

lemma addReminder_store_ok:
  "store_ok (reminders m) \<Longrightarrow> store_ok (reminders (snd (addReminder e c p m)))"
  by (simp add: addReminder_result store_ok_update)

lemma addReminder_distinct:
  "distinct (map fst (reminders m)) \<Longrightarrow> distinct (map fst (reminders (snd (addReminder e c p m))))"
  by (simp add: addReminder_result distinct_update)

text \<open>
  C10. \<^verbatim>\<open>addReminder\<close> does not look at the content: with the empty string it
  stores an active record under the id it returns, writes the map to the file when the
  disk can be written, and the record is listed, can be completed and can be deleted.
\<close>

theorem addReminder_empty_content:
  "fst (addReminder e [] p m) = new_id e
   \<and> map_of (reminders (snd (addReminder e [] p m))) (new_id e) =
       Some \<lparr>rem_id = new_id e, content = [],
             priority = (case p of None \<Rightarrow> Normal | Some q \<Rightarrow> q),
             created = iso_now e, completed = None, status = Active\<rparr>
   \<and> (write_ok e \<longrightarrow>
         disk (snd (addReminder e [] p m))
           = Json (Object_fromEntries (reminders (snd (addReminder e [] p m)))))
   \<and> (write_ok e \<and> distinct (map fst (reminders m)) \<longrightarrow>
         (\<exists>obj. disk (snd (addReminder e [] p m)) = Json obj
            \<and> map_of obj (new_id e) =
                Some \<lparr>rem_id = new_id e, content = [],
                      priority = (case p of None \<Rightarrow> Normal | Some q \<Rightarrow> q),
                      created = iso_now e, completed = None, status = Active\<rparr>))
   \<and> \<lparr>rem_id = new_id e, content = [],
        priority = (case p of None \<Rightarrow> Normal | Some q \<Rightarrow> q),
        created = iso_now e, completed = None, status = Active\<rparr>
       \<in> set (getReminders e1 (snd (addReminder e [] p m)) None)
   \<and> fst (completeReminder e2 (new_id e) (snd (addReminder e [] p m)))
   \<and> fst (deleteReminder e3 (new_id e) (snd (addReminder e [] p m)))"
proof -
  let ?r = "\<lparr>rem_id = new_id e, content = [],
        priority = (case p of None \<Rightarrow> Normal | Some q \<Rightarrow> q),
        created = iso_now e, completed = None, status = Active\<rparr>"
  let ?m' = "snd (addReminder e [] p m)"
  have ret: "fst (addReminder e [] p m) = new_id e"
    by (simp add: addReminder_result)
  have stored: "map_of (reminders ?m') (new_id e) = Some ?r"
    by (rule addReminder_stored)
  have act: "status ?r = Active"
    by simp
  have saved: "disk ?m' = Json (Object_fromEntries (reminders ?m'))" if "write_ok e"
    using that by (simp add: addReminder_result disk_saveReminders)
  have infile: "\<exists>obj. disk ?m' = Json obj \<and> map_of obj (new_id e) = Some ?r"
    if "write_ok e" and "distinct (map fst (reminders m))"
  proof -
    from that(2) have "distinct (map fst (reminders ?m'))"
      by (rule addReminder_distinct)
    then have "map_of (Object_fromEntries (reminders ?m')) = map_of (reminders ?m')"
      by (rule map_of_Object_fromEntries)
    with saved [OF that(1)] stored show ?thesis
      by simp
  qed
  have listed: "?r \<in> set (getReminders e1 ?m' None)"
    using stored act by (rule active_is_listed)
  have compl: "fst (completeReminder e2 (new_id e) ?m')"
    by (simp add: completeReminder_active [OF stored act])
  have "new_id e \<in> fst ` set (reminders ?m')"
    using stored by (auto dest: map_of_SomeD intro: rev_image_eqI)
  then have del: "fst (deleteReminder e3 (new_id e) ?m')"
    by (simp add: deleteReminder_def Let_def map_of_eq_None_iff)
  from ret stored saved infile listed compl del show ?thesis
    by blast
qed

theorem addReminder_empty_content_witness:
  "write_ok ex_env \<and> distinct (map fst (reminders ex_manager))
   \<and> fst (addReminder ex_env [] None ex_manager) = ''rem_1793606400000_k3x9q''
   \<and> (\<exists>obj. disk (snd (addReminder ex_env [] None ex_manager)) = Json obj
         \<and> map_of obj (new_id ex_env) =
             Some \<lparr>rem_id = new_id ex_env, content = [], priority = Normal,
                   created = iso_now ex_env, completed = None, status = Active\<rparr>)
   \<and> getReminders ex_env (snd (addReminder ex_env [] None ex_manager)) None
       = [ex_high1, ex_high2, ex_normal,
          \<lparr>rem_id = ''rem_1793606400000_k3x9q'', content = [], priority = Normal,
           created = ''2026-11-02T08:00:00.000Z'', completed = None, status = Active\<rparr>,
          ex_low]
   \<and> fst (completeReminder ex_env (new_id ex_env) (snd (addReminder ex_env [] None ex_manager)))
   \<and> fst (deleteReminder ex_env (new_id ex_env) (snd (addReminder ex_env [] None ex_manager)))"
proof -
  have w: "write_ok ex_env"
    by code_simp
  have d: "distinct (map fst (reminders ex_manager))"
    by code_simp
  have i: "new_id ex_env = ''rem_1793606400000_k3x9q''"
    by code_simp
  have l: "getReminders ex_env (snd (addReminder ex_env [] None ex_manager)) None
       = [ex_high1, ex_high2, ex_normal,
          \<lparr>rem_id = ''rem_1793606400000_k3x9q'', content = [], priority = Normal,
           created = ''2026-11-02T08:00:00.000Z'', completed = None, status = Active\<rparr>,
          ex_low]"
    by code_simp
  note t = addReminder_empty_content [of ex_env None ex_manager ex_env ex_env ex_env]
  from t have 1: "fst (addReminder ex_env [] None ex_manager) = new_id ex_env"
    by blast
  from t w d have 2: "\<exists>obj. disk (snd (addReminder ex_env [] None ex_manager)) = Json obj
         \<and> map_of obj (new_id ex_env) =
             Some \<lparr>rem_id = new_id ex_env, content = [],
                   priority = (case None of None \<Rightarrow> Normal | Some q \<Rightarrow> q),
                   created = iso_now ex_env, completed = None, status = Active\<rparr>"
    by blast
  from t have 3: "fst (completeReminder ex_env (new_id ex_env) (snd (addReminder ex_env [] None ex_manager)))"
    by blast
  from t have 4: "fst (deleteReminder ex_env (new_id ex_env) (snd (addReminder ex_env [] None ex_manager)))"
    by blast
  from 2 have p2: "\<exists>obj. disk (snd (addReminder ex_env [] None ex_manager)) = Json obj
         \<and> map_of obj (new_id ex_env) =
             Some \<lparr>rem_id = new_id ex_env, content = [], priority = Normal,
                   created = iso_now ex_env, completed = None, status = Active\<rparr>"
    by (simp only: option.case)
  from w d 1 [unfolded i] p2 l 3 4 show ?thesis
    by blast
qed

lemma only_new_matches:
  assumes "distinct (map fst rs)" and "P v"
    and "\<forall>q \<in> set rs. fst q \<noteq> k \<longrightarrow> \<not> P (snd q)"
  shows "filter P (map snd (AList.update k v rs)) = [v]"
  using assms
proof (induction rs)
  case Nil
  then show ?case by simp
next
  case (Cons q rs)
  show ?case
  proof (cases "fst q = k")
    case True
    with Cons.prems(1) have "k \<notin> fst ` set rs"
      by simp
    then have "\<forall>p \<in> set rs. fst p \<noteq> k"
      by force
    with Cons.prems(3) have "\<forall>p \<in> set rs. \<not> P (snd p)"
      by simp
    then have "filter P (map snd rs) = []"
      by (auto simp: filter_empty_conv)
    with True Cons.prems(2) show ?thesis
      by simp
  next
    case False
    with Cons.prems(3) have "\<not> P (snd q)"
      by simp
    moreover from Cons.prems have "filter P (map snd (AList.update k v rs)) = [v]"
      by (intro Cons.IH) simp_all
    ultimately show ?thesis
      using False by simp
  qed
qed

text \<open>
  C7, as the code has it. \<^verbatim>\<open>addReminder\<close> returns the id it builds from the clock
  and the random suffix and stores under it an active record with the given content, the
  given priority (normal when none is given) and the current time. In a store where
  every record sits under its own id, the list for the filter all then holds exactly one
  record with the returned id, namely that record; it is the only listed record with
  the content and the priority of the input when no record under another id is active
  with that content and priority. The id is not checked against the map: when it is not
  yet a key the new entry goes to the end and the other entries stay.
\<close>

theorem addReminder_then_listed:
  assumes "store_ok (reminders m)"
  shows "fst (addReminder e c p m) = new_id e
   \<and> map_of (reminders (snd (addReminder e c p m))) (new_id e) =
       Some \<lparr>rem_id = new_id e, content = c,
             priority = (case p of None \<Rightarrow> Normal | Some q \<Rightarrow> q),
             created = iso_now e, completed = None, status = Active\<rparr>
   \<and> filter (\<lambda>r. rem_id r = new_id e) (getReminders e' (snd (addReminder e c p m)) (Some ''all''))
       = [\<lparr>rem_id = new_id e, content = c,
           priority = (case p of None \<Rightarrow> Normal | Some q \<Rightarrow> q),
           created = iso_now e, completed = None, status = Active\<rparr>]
   \<and> ((\<forall>q \<in> set (reminders m). fst q \<noteq> new_id e \<longrightarrow>
           \<not> (content (snd q) = c
              \<and> priority (snd q) = (case p of None \<Rightarrow> Normal | Some q \<Rightarrow> q)
              \<and> status (snd q) = Active)) \<longrightarrow>
        filter (\<lambda>r. content r = c
                  \<and> priority r = (case p of None \<Rightarrow> Normal | Some q \<Rightarrow> q)
                  \<and> status r = Active)
          (getReminders e' (snd (addReminder e c p m)) (Some ''all''))
        = [\<lparr>rem_id = new_id e, content = c,
            priority = (case p of None \<Rightarrow> Normal | Some q \<Rightarrow> q),
            created = iso_now e, completed = None, status = Active\<rparr>])
   \<and> (new_id e \<notin> fst ` set (reminders m) \<longrightarrow>
         reminders (snd (addReminder e c p m))
           = reminders m @ [(new_id e,
               \<lparr>rem_id = new_id e, content = c,
                priority = (case p of None \<Rightarrow> Normal | Some q \<Rightarrow> q),
                created = iso_now e, completed = None, status = Active\<rparr>)])"
proof -
  let ?prio = "case p of None \<Rightarrow> Normal | Some q \<Rightarrow> q"
  let ?r = "\<lparr>rem_id = new_id e, content = c, priority = ?prio,
        created = iso_now e, completed = None, status = Active\<rparr>"
  let ?m' = "snd (addReminder e c p m)"
  let ?P = "\<lambda>r. content r = c \<and> priority r = ?prio \<and> status r = Active"
  have ret: "fst (addReminder e c p m) = new_id e"
    by (simp add: addReminder_result)
  have stored: "map_of (reminders ?m') (new_id e) = Some ?r"
    by (rule addReminder_stored)
  have ok: "store_ok (reminders ?m')"
    using assms by (rule addReminder_store_ok)
  have sel: "selected ''all'' ?r"
    by (simp add: selected_def)
  have once: "filter (\<lambda>r. rem_id r = new_id e) (getReminders e' ?m' (Some ''all'')) = [?r]"
    using ok stored sel by (rule listed_once)
  have fresh: "reminders ?m' = reminders m @ [(new_id e, ?r)]" if "new_id e \<notin> fst ` set (reminders m)"
    using that by (simp add: addReminder_result update_new_key)
  have alone: "filter ?P (getReminders e' ?m' (Some ''all'')) = [?r]"
    if others: "\<forall>q \<in> set (reminders m). fst q \<noteq> new_id e \<longrightarrow> \<not> ?P (snd q)"
  proof -
    let ?G = "getReminders e' ?m' (Some ''all'')"
    let ?xs = "map snd (reminders ?m')"
    from assms have d: "distinct (map fst (reminders m))"
      by (simp add: store_ok_def)
    have rs: "reminders ?m' = AList.update (new_id e) ?r (reminders m)"
      by (simp add: addReminder_result)
    have "?P ?r"
      by simp
    with d have E: "filter ?P ?xs = [?r]"
      unfolding rs using others by (rule only_new_matches)
    have A: "mset (filter ?P ?G) = filter_mset ?P (mset ?G)"
      by (rule mset_filter)
    have B: "mset ?G = mset (filter (selected ''all'') ?xs)"
      by (simp only: getReminders_eq mset_sort_by_compare)
    have C: "filter_mset ?P (mset (filter (selected ''all'') ?xs))
        = mset (filter ?P (filter (selected ''all'') ?xs))"
      by (rule mset_filter [symmetric])
    have D: "filter ?P (filter (selected ''all'') ?xs) = filter (selected ''all'') (filter ?P ?xs)"
      by (simp add: conj_commute)
    have F: "filter (selected ''all'') [?r] = [?r]"
      using sel by simp
    have "mset (filter ?P ?G) = mset [?r]"
      by (simp only: A B C D E F)
    then have "mset (filter ?P ?G) = {#?r#}"
      by (simp only: mset.simps)
    then show ?thesis
      by (simp only: mset_single_iff)
  qed
  from ret stored once alone fresh show ?thesis
    by blast
qed

theorem addReminder_then_listed_witness:
  "store_ok (reminders ex_manager)
   \<and> new_id ex_env \<notin> fst ` set (reminders ex_manager)
   \<and> filter (\<lambda>q. content (snd q) = ''buy milk'' \<and> priority (snd q) = High \<and> status (snd q) = Active)
        (reminders ex_manager) = []
   \<and> fst (addReminder ex_env ''buy milk'' (Some High) ex_manager) = ''rem_1793606400000_k3x9q''
   \<and> filter (\<lambda>r. rem_id r = new_id ex_env)
        (getReminders ex_env (snd (addReminder ex_env ''buy milk'' (Some High) ex_manager))
           (Some ''all''))
       = [\<lparr>rem_id = new_id ex_env, content = ''buy milk'', priority = High,
           created = iso_now ex_env, completed = None, status = Active\<rparr>]
   \<and> filter (\<lambda>r. content r = ''buy milk'' \<and> priority r = High \<and> status r = Active)
        (getReminders ex_env (snd (addReminder ex_env ''buy milk'' (Some High) ex_manager))
           (Some ''all''))
       = [\<lparr>rem_id = new_id ex_env, content = ''buy milk'', priority = High,
           created = iso_now ex_env, completed = None, status = Active\<rparr>]
   \<and> reminders (snd (addReminder ex_env ''buy milk'' (Some High) ex_manager))
       = reminders ex_manager @ [(new_id ex_env,
           \<lparr>rem_id = new_id ex_env, content = ''buy milk'', priority = High,
            created = iso_now ex_env, completed = None, status = Active\<rparr>)]"
proof -
  have ok: "store_ok (reminders ex_manager)"
    by code_simp
  have fr: "new_id ex_env \<notin> fst ` set (reminders ex_manager)"
    by code_simp
  have em: "filter (\<lambda>q. content (snd q) = ''buy milk'' \<and> priority (snd q) = High \<and> status (snd q) = Active)
        (reminders ex_manager) = []"
    by code_simp
  then have ot: "\<forall>q \<in> set (reminders ex_manager). fst q \<noteq> new_id ex_env \<longrightarrow>
          \<not> (content (snd q) = ''buy milk''
             \<and> priority (snd q) = (case Some High of None \<Rightarrow> Normal | Some q \<Rightarrow> q)
             \<and> status (snd q) = Active)"
    by (simp add: filter_empty_conv)
  have i: "new_id ex_env = ''rem_1793606400000_k3x9q''"
    by code_simp
  note t = addReminder_then_listed [OF ok, of ex_env "''buy milk''" "Some High" ex_env]
  from t have 1: "fst (addReminder ex_env ''buy milk'' (Some High) ex_manager) = new_id ex_env"
    by blast
  from t have 2: "filter (\<lambda>r. rem_id r = new_id ex_env)
        (getReminders ex_env (snd (addReminder ex_env ''buy milk'' (Some High) ex_manager))
           (Some ''all''))
       = [\<lparr>rem_id = new_id ex_env, content = ''buy milk'',
           priority = (case Some High of None \<Rightarrow> Normal | Some q \<Rightarrow> q),
           created = iso_now ex_env, completed = None, status = Active\<rparr>]"
    by blast
  from t ot have 3: "filter (\<lambda>r. content r = ''buy milk''
             \<and> priority r = (case Some High of None \<Rightarrow> Normal | Some q \<Rightarrow> q)
             \<and> status r = Active)
        (getReminders ex_env (snd (addReminder ex_env ''buy milk'' (Some High) ex_manager))
           (Some ''all''))
       = [\<lparr>rem_id = new_id ex_env, content = ''buy milk'',
           priority = (case Some High of None \<Rightarrow> Normal | Some q \<Rightarrow> q),
           created = iso_now ex_env, completed = None, status = Active\<rparr>]"
    by blast
  from t fr have 4: "reminders (snd (addReminder ex_env ''buy milk'' (Some High) ex_manager))
       = reminders ex_manager @ [(new_id ex_env,
           \<lparr>rem_id = new_id ex_env, content = ''buy milk'',
            priority = (case Some High of None \<Rightarrow> Normal | Some q \<Rightarrow> q),
            created = iso_now ex_env, completed = None, status = Active\<rparr>)]"
    by blast
  from ok fr em 1 [unfolded i] 2 [unfolded option.case] 3 [unfolded option.case]
    4 [unfolded option.case]
  show ?thesis
    by blast
qed

text \<open>
  C7 as stated fails twice. After adding a reminder whose content and priority an active
  record already has, the list holds two records that match the input. And the id is
  not always fresh: with the clock and the random suffix of an earlier add the id is one
  the map already has, and the earlier record is replaced.
\<close>

theorem addReminder_exactly_one_counterexample:
  "getReminders ex_env (snd (addReminder ex_env ''call the bank'' (Some High) ex_manager))
       (Some ''all'')
     = [ex_high1, ex_high2,
        \<lparr>rem_id = ''rem_1793606400000_k3x9q'', content = ''call the bank'', priority = High,
         created = ''2026-11-02T08:00:00.000Z'', completed = None, status = Active\<rparr>,
        ex_normal, ex_low]
   \<and> content ex_high2 = ''call the bank'' \<and> priority ex_high2 = High \<and> status ex_high2 = Active
   \<and> rem_id ex_high2 \<noteq> ''rem_1793606400000_k3x9q''
   \<and> fst (addReminder ex_env_clash ''buy milk'' None ex_manager) \<in> fst ` set (reminders ex_manager)
   \<and> map fst (reminders (snd (addReminder ex_env_clash ''buy milk'' None ex_manager)))
       = map fst (reminders ex_manager)
   \<and> map_of (reminders ex_manager) (fst (addReminder ex_env_clash ''buy milk'' None ex_manager))
       = Some ex_high1
   \<and> ex_high1 \<notin> set (getReminders ex_env
         (snd (addReminder ex_env_clash ''buy milk'' None ex_manager)) (Some ''all''))"
  by code_simp

subsection \<open>moveToNotes\<close>

lemma moveToNotes_refused:
  assumes "\<not> (\<exists>r. map_of (reminders m) k = Some r \<and> status r = Active)"
  shows "moveToNotes e k note m =
     (\<lparr>success = False, message = ''Reminder not found or already processed''\<rparr>, m)"
  using assms by (auto simp: moveToNotes_def split: option.splits)

lemma moveToNotes_written:
  assumes "map_of (reminders m) k = Some r" and "status r = Active"
    and "sink e (note_filename e k) (noteContent e r note) = None"
  shows "moveToNotes e k note m =
     (\<lparr>success = True, message = ''Moved to notes: '' @ note_filename e k\<rparr>,
      saveReminders e (m\<lparr>reminders := AList.update k (r\<lparr>status := Moved\<rparr>) (reminders m)\<rparr>))"
  using assms by (simp add: moveToNotes_def Let_def)

lemma moveToNotes_failed:
  assumes "map_of (reminders m) k = Some r" and "status r = Active"
    and "sink e (note_filename e k) (noteContent e r note) = Some err"
  shows "moveToNotes e k note m =
     (\<lparr>success = False, message = ''Error moving to notes: '' @ err\<rparr>, m)"
  using assms by (simp add: moveToNotes_def Let_def)

text \<open>
  C2. \<^verbatim>\<open>moveToNotes\<close> reports success only for an id bound to an active record. When
  the hand-off to the notes directory succeeds, the result is success with the message
  naming the file \<^verbatim>\<open>reminder_<date>_<id>.md\<close>, the record gets status moved, and no
  list contains a record with that id any more. When the hand-off throws, the result is
  a failure whose message carries the error, and the manager is unchanged, so the record
  is still active and still listed. The store is one in which every record sits under
  its own id.
\<close>

theorem moveToNotes_contract:
  assumes "store_ok (reminders m)"
  shows "(success (fst (moveToNotes e k note m)) \<longrightarrow>
            (\<exists>r. map_of (reminders m) k = Some r \<and> status r = Active))
   \<and> (\<forall>r. map_of (reminders m) k = Some r \<and> status r = Active
            \<and> sink e (note_filename e k) (noteContent e r note) = None \<longrightarrow>
          fst (moveToNotes e k note m)
            = \<lparr>success = True, message = ''Moved to notes: '' @ note_filename e k\<rparr>
          \<and> map_of (reminders (snd (moveToNotes e k note m))) k = Some (r\<lparr>status := Moved\<rparr>)
          \<and> (\<forall>e' flt. \<forall>x \<in> set (getReminders e' (snd (moveToNotes e k note m)) flt). rem_id x \<noteq> k))
   \<and> (\<forall>r err. map_of (reminders m) k = Some r \<and> status r = Active
            \<and> sink e (note_filename e k) (noteContent e r note) = Some err \<longrightarrow>
          fst (moveToNotes e k note m)
            = \<lparr>success = False, message = ''Error moving to notes: '' @ err\<rparr>
          \<and> snd (moveToNotes e k note m) = m
          \<and> (\<forall>e'. r \<in> set (getReminders e' m None)))
   \<and> note_filename e k = ''reminder_'' @ takeWhile (\<lambda>c. c \<noteq> CHR ''T'') (iso_now e) @ ''_'' @ k @ ''.md''"
proof -
  have only: "\<exists>r. map_of (reminders m) k = Some r \<and> status r = Active"
    if "success (fst (moveToNotes e k note m))"
  proof (rule ccontr)
    assume "\<not> (\<exists>r. map_of (reminders m) k = Some r \<and> status r = Active)"
    from moveToNotes_refused [OF this, of e "note"] that show False
      by simp
  qed
  have moved: "fst (moveToNotes e k note m)
            = \<lparr>success = True, message = ''Moved to notes: '' @ note_filename e k\<rparr>
          \<and> map_of (reminders (snd (moveToNotes e k note m))) k = Some (r\<lparr>status := Moved\<rparr>)
          \<and> (\<forall>e' flt. \<forall>x \<in> set (getReminders e' (snd (moveToNotes e k note m)) flt). rem_id x \<noteq> k)"
    if a: "map_of (reminders m) k = Some r" "status r = Active"
      "sink e (note_filename e k) (noteContent e r note) = None" for r
  proof -
    have eq: "moveToNotes e k note m =
       (\<lparr>success = True, message = ''Moved to notes: '' @ note_filename e k\<rparr>,
        saveReminders e (m\<lparr>reminders := AList.update k (r\<lparr>status := Moved\<rparr>) (reminders m)\<rparr>))"
      using a by (rule moveToNotes_written)
    have res: "fst (moveToNotes e k note m)
            = \<lparr>success = True, message = ''Moved to notes: '' @ note_filename e k\<rparr>"
      by (simp add: eq)
    have after: "map_of (reminders (snd (moveToNotes e k note m))) k = Some (r\<lparr>status := Moved\<rparr>)"
      by (simp add: eq update_conv')
    have "rem_id r = k"
    proof -
      from a(1) have "(k, r) \<in> set (reminders m)"
        by (rule map_of_SomeD)
      with assms show ?thesis
        by (auto simp: store_ok_def list_all_iff)
    qed
    then have ok: "store_ok (reminders (snd (moveToNotes e k note m)))"
      using assms by (simp add: eq store_ok_update)
    have "rem_id x \<noteq> k" if x: "x \<in> set (getReminders e' (snd (moveToNotes e k note m)) flt)"
      for e' flt x
    proof
      assume "rem_id x = k"
      from listed_with_id [OF ok after x this] have "x = r\<lparr>status := Moved\<rparr>" .
      moreover from listed_is_stored [OF x] have "status x = Active"
        by simp
      ultimately show False
        by simp
    qed
    with res after show ?thesis
      by blast
  qed
  have failed: "fst (moveToNotes e k note m)
            = \<lparr>success = False, message = ''Error moving to notes: '' @ err\<rparr>
          \<and> snd (moveToNotes e k note m) = m
          \<and> (\<forall>e'. r \<in> set (getReminders e' m None))"
    if a: "map_of (reminders m) k = Some r" "status r = Active"
      "sink e (note_filename e k) (noteContent e r note) = Some err" for r err
  proof -
    have eq: "moveToNotes e k note m =
       (\<lparr>success = False, message = ''Error moving to notes: '' @ err\<rparr>, m)"
      using a by (rule moveToNotes_failed)
    have "r \<in> set (getReminders e' m None)" for e'
      using a(1,2) by (rule active_is_listed)
    then show ?thesis
      by (simp add: eq)
  qed
  have name: "note_filename e k
      = ''reminder_'' @ takeWhile (\<lambda>c. c \<noteq> CHR ''T'') (iso_now e) @ ''_'' @ k @ ''.md''"
    by (simp add: note_filename_def)
  from only moved failed name show ?thesis
    by blast
qed

theorem moveToNotes_contract_witness:
  "store_ok (reminders ex_manager)
   \<and> map_of (reminders ex_manager) (rem_id ex_low) = Some ex_low \<and> status ex_low = Active
   \<and> sink ex_env (note_filename ex_env (rem_id ex_low)) (noteContent ex_env ex_low None) = None
   \<and> fst (moveToNotes ex_env (rem_id ex_low) None ex_manager)
       = \<lparr>success = True,
          message = ''Moved to notes: reminder_2026-11-02_rem_1793520000000_a1b2c.md''\<rparr>
   \<and> map_of (reminders (snd (moveToNotes ex_env (rem_id ex_low) None ex_manager))) (rem_id ex_low)
       = Some (ex_low\<lparr>status := Moved\<rparr>)
   \<and> getReminders ex_env (snd (moveToNotes ex_env (rem_id ex_low) None ex_manager)) None
       = [ex_high1, ex_high2, ex_normal]
   \<and> sink ex_env_nosink (note_filename ex_env_nosink (rem_id ex_low))
         (noteContent ex_env_nosink ex_low None) = Some ''Error: EACCES: permission denied''
   \<and> fst (moveToNotes ex_env_nosink (rem_id ex_low) None ex_manager)
       = \<lparr>success = False,
          message = ''Error moving to notes: Error: EACCES: permission denied''\<rparr>
   \<and> snd (moveToNotes ex_env_nosink (rem_id ex_low) None ex_manager) = ex_manager
   \<and> ex_low \<in> set (getReminders ex_env ex_manager None)"
proof -
  have ok: "store_ok (reminders ex_manager)"
    by code_simp
  have a: "map_of (reminders ex_manager) (rem_id ex_low) = Some ex_low" "status ex_low = Active"
    by code_simp+
  have s: "sink ex_env (note_filename ex_env (rem_id ex_low)) (noteContent ex_env ex_low None) = None"
    by code_simp
  have n: "''Moved to notes: '' @ note_filename ex_env (rem_id ex_low)
      = ''Moved to notes: reminder_2026-11-02_rem_1793520000000_a1b2c.md''"
    by code_simp
  have l: "getReminders ex_env (snd (moveToNotes ex_env (rem_id ex_low) None ex_manager)) None
       = [ex_high1, ex_high2, ex_normal]"
    by code_simp
  have f: "sink ex_env_nosink (note_filename ex_env_nosink (rem_id ex_low))
         (noteContent ex_env_nosink ex_low None) = Some ''Error: EACCES: permission denied''"
    by code_simp
  have g: "''Error moving to notes: '' @ ''Error: EACCES: permission denied''
      = ''Error moving to notes: Error: EACCES: permission denied''"
    by simp
  note t = moveToNotes_contract [OF ok, of ex_env "rem_id ex_low" None]
  note u = moveToNotes_contract [OF ok, of ex_env_nosink "rem_id ex_low" None]
  from t a s have 1: "fst (moveToNotes ex_env (rem_id ex_low) None ex_manager)
       = \<lparr>success = True, message = ''Moved to notes: '' @ note_filename ex_env (rem_id ex_low)\<rparr>"
    by blast
  from t a s have 2: "map_of (reminders (snd (moveToNotes ex_env (rem_id ex_low) None ex_manager)))
       (rem_id ex_low) = Some (ex_low\<lparr>status := Moved\<rparr>)"
    by blast
  from u a f have 3: "fst (moveToNotes ex_env_nosink (rem_id ex_low) None ex_manager)
       = \<lparr>success = False,
          message = ''Error moving to notes: '' @ ''Error: EACCES: permission denied''\<rparr>"
    by blast
  from u a f have 4: "snd (moveToNotes ex_env_nosink (rem_id ex_low) None ex_manager) = ex_manager"
    by blast
  from u a f have 5: "ex_low \<in> set (getReminders ex_env ex_manager None)"
    by blast
  from ok a s 1 [unfolded n] 2 l f 3 [unfolded g] 4 5 show ?thesis
    by blast
qed

subsection \<open>clearOldReminders\<close>

lemma clear_loop_filter:
  "clear_loop e c es (rs, n) =
     (filter (\<lambda>p. fst p \<notin> fst ` {q \<in> set es. is_old e c (snd q)}) rs,
      n + length (filter (\<lambda>q. is_old e c (snd q)) es))"
proof (induction es arbitrary: rs n)
  case Nil
  then show ?case by simp
next
  case (Cons q es)
  obtain k r where q: "q = (k, r)" by (cases q)
  show ?case
  proof (cases "is_old e c r")
    case True
    have ins: "{q \<in> set ((k, r) # es). is_old e c (snd q)}
        = insert (k, r) {q \<in> set es. is_old e c (snd q)}"
      using True by auto
    have "filter (\<lambda>p. fst p \<notin> fst ` {q \<in> set es. is_old e c (snd q)}) (AList.delete k rs)
        = filter (\<lambda>p. fst p \<notin> fst ` {q \<in> set ((k, r) # es). is_old e c (snd q)}) rs"
      unfolding ins AList.delete_eq filter_filter
      by (rule filter_cong) auto
    with True q Cons.IH [of "AList.delete k rs" "n + 1"] show ?thesis
      by simp
  next
    case False
    have "{q \<in> set ((k, r) # es). is_old e c (snd q)} = {q \<in> set es. is_old e c (snd q)}"
      using False by auto
    with False q Cons.IH [of rs n] show ?thesis
      by simp
  qed
qed

lemma clear_loop_whole:
  assumes "distinct (map fst rs)"
  shows "clear_loop e c rs (rs, 0) =
     (filter (\<lambda>p. \<not> is_old e c (snd p)) rs, length (filter (\<lambda>p. is_old e c (snd p)) rs))"
proof -
  have "(fst p \<notin> fst ` {q \<in> set rs. is_old e c (snd q)}) \<longleftrightarrow> \<not> is_old e c (snd p)"
    if "p \<in> set rs" for p
  proof -
    have "q = p" if "q \<in> set rs" and "fst q = fst p" for q
      using assms that \<open>p \<in> set rs\<close> by (metis eq_key_imp_eq_value prod.collapse)
    with that show ?thesis
      by force
  qed
  then have "filter (\<lambda>p. fst p \<notin> fst ` {q \<in> set rs. is_old e c (snd q)}) rs
      = filter (\<lambda>p. \<not> is_old e c (snd p)) rs"
    by (intro filter_cong refl)
  then show ?thesis
    by (simp add: clear_loop_filter)
qed

lemma clearOldReminders_result:
  assumes "distinct (map fst (reminders m))"
  shows "clearOldReminders e days m =
     (let n = length (filter (\<lambda>p. is_old e (cutoff_of e days) (snd p)) (reminders m));
          m1 = m\<lparr>reminders := filter (\<lambda>p. \<not> is_old e (cutoff_of e days) (snd p)) (reminders m)\<rparr>
      in (n, if n > 0 then saveReminders e m1 else m1))"
  by (simp add: clearOldReminders_def clear_loop_whole [OF assms] Let_def)

lemma is_old_unfold:
  "is_old e (cutoff_of e days) r \<longleftrightarrow>
     status r \<noteq> Active
     \<and> getTime e (created r) < date_now e - (case days of None \<Rightarrow> 7 | Some d \<Rightarrow> d) * 86400000"
  by (simp add: is_old_def cutoff_of_def mult.commute)

text \<open>
  C3, as the code has it. \<^verbatim>\<open>clearOldReminders\<close> removes exactly the entries whose
  record is not active and was created strictly before the cutoff, the current time minus
  the days (seven when none are given) times 86400000 milliseconds, and returns how many
  it removed. When it removed none the manager, file included, is unchanged; when it
  removed some and the disk can be written the file holds the new map. An active record
  is never removed. With zero days the records removed are the non-active ones created
  strictly before the current millisecond.
\<close>

theorem clearOldReminders_contract:
  assumes "distinct (map fst (reminders m))"
  shows "reminders (snd (clearOldReminders e days m))
       = filter (\<lambda>p. \<not> (status (snd p) \<noteq> Active
                  \<and> getTime e (created (snd p))
                      < date_now e - (case days of None \<Rightarrow> 7 | Some d \<Rightarrow> d) * 86400000))
           (reminders m)
   \<and> fst (clearOldReminders e days m)
       = length (filter (\<lambda>p. status (snd p) \<noteq> Active
                  \<and> getTime e (created (snd p))
                      < date_now e - (case days of None \<Rightarrow> 7 | Some d \<Rightarrow> d) * 86400000)
           (reminders m))
   \<and> (fst (clearOldReminders e days m) = 0 \<longrightarrow> snd (clearOldReminders e days m) = m)
   \<and> (0 < fst (clearOldReminders e days m) \<and> write_ok e \<longrightarrow>
         disk (snd (clearOldReminders e days m))
           = Json (Object_fromEntries (reminders (snd (clearOldReminders e days m)))))
   \<and> (\<forall>p \<in> set (reminders m). status (snd p) = Active \<longrightarrow>
         p \<in> set (reminders (snd (clearOldReminders e days m))))
   \<and> (days = Some 0 \<longrightarrow>
         (\<forall>p \<in> set (reminders m).
            status (snd p) \<noteq> Active \<and> getTime e (created (snd p)) < date_now e \<longrightarrow>
            p \<notin> set (reminders (snd (clearOldReminders e days m)))))"
proof -
  let ?old = "\<lambda>p. status (snd p) \<noteq> Active
                  \<and> getTime e (created (snd p))
                      < date_now e - (case days of None \<Rightarrow> 7 | Some d \<Rightarrow> d) * 86400000"
  let ?res = "clearOldReminders e days m"
  have res: "?res =
     (let n = length (filter ?old (reminders m));
          m1 = m\<lparr>reminders := filter (\<lambda>p. \<not> ?old p) (reminders m)\<rparr>
      in (n, if n > 0 then saveReminders e m1 else m1))"
    by (simp only: clearOldReminders_result [OF assms] is_old_unfold)
  have rs: "reminders (snd ?res) = filter (\<lambda>p. \<not> ?old p) (reminders m)"
    by (simp add: res Let_def)
  have n: "fst ?res = length (filter ?old (reminders m))"
    by (simp add: res Let_def)
  have none: "snd ?res = m" if "fst ?res = 0"
  proof -
    from that n have "filter ?old (reminders m) = []"
      by simp
    then have "filter (\<lambda>p. \<not> ?old p) (reminders m) = reminders m"
      by (simp add: filter_empty_conv filter_id_conv)
    with that n show ?thesis
      by (simp add: res Let_def)
  qed
  have some: "disk (snd ?res) = Json (Object_fromEntries (reminders (snd ?res)))"
    if "0 < fst ?res" and "write_ok e"
    using that n by (simp add: res Let_def disk_saveReminders)
  have act: "p \<in> set (reminders (snd ?res))" if "p \<in> set (reminders m)" and "status (snd p) = Active" for p
    using that by (simp add: rs)
  have zero: "p \<notin> set (reminders (snd ?res))"
    if "days = Some 0" and "p \<in> set (reminders m)"
      and "status (snd p) \<noteq> Active \<and> getTime e (created (snd p)) < date_now e" for p
  proof -
    from that(1) have "(case days of None \<Rightarrow> 7 | Some d \<Rightarrow> d) = (0::int)"
      by simp
    with that(2,3) show ?thesis
      unfolding rs by simp
  qed
  from rs n none some act zero show ?thesis
    by blast
qed

theorem clearOldReminders_contract_witness:
  "distinct (map fst (reminders ex_manager))
   \<and> clearOldReminders ex_env None ex_manager
       = (1, \<lparr>reminders = [(rem_id ex_low, ex_low), (rem_id ex_high1, ex_high1),
                           (rem_id ex_high2, ex_high2), (rem_id ex_normal, ex_normal)],
              disk = Json [(rem_id ex_low, ex_low), (rem_id ex_high1, ex_high1),
                           (rem_id ex_high2, ex_high2), (rem_id ex_normal, ex_normal)]\<rparr>)
   \<and> (0 < fst (clearOldReminders ex_env None ex_manager) \<and> write_ok ex_env)
   \<and> disk (snd (clearOldReminders ex_env None ex_manager))
       = Json (Object_fromEntries (reminders (snd (clearOldReminders ex_env None ex_manager))))
   \<and> (rem_id ex_low, ex_low) \<in> set (reminders ex_manager) \<and> status (snd (rem_id ex_low, ex_low)) = Active
   \<and> (rem_id ex_low, ex_low) \<in> set (reminders (snd (clearOldReminders ex_env (Some 0) ex_manager)))
   \<and> (rem_id ex_done, ex_done) \<in> set (reminders ex_manager)
   \<and> (status (snd (rem_id ex_done, ex_done)) \<noteq> Active
        \<and> getTime ex_env (created (snd (rem_id ex_done, ex_done))) < date_now ex_env)
   \<and> (rem_id ex_done, ex_done) \<notin> set (reminders (snd (clearOldReminders ex_env (Some 0) ex_manager)))
   \<and> fst (clearOldReminders ex_env (Some 400) ex_manager) = 0
   \<and> snd (clearOldReminders ex_env (Some 400) ex_manager) = ex_manager"
proof -
  have d: "distinct (map fst (reminders ex_manager))"
    by code_simp
  have v: "clearOldReminders ex_env None ex_manager
       = (1, \<lparr>reminders = [(rem_id ex_low, ex_low), (rem_id ex_high1, ex_high1),
                           (rem_id ex_high2, ex_high2), (rem_id ex_normal, ex_normal)],
              disk = Json [(rem_id ex_low, ex_low), (rem_id ex_high1, ex_high1),
                           (rem_id ex_high2, ex_high2), (rem_id ex_normal, ex_normal)]\<rparr>)"
    by code_simp
  have w: "0 < fst (clearOldReminders ex_env None ex_manager) \<and> write_ok ex_env"
    by code_simp
  have l: "(rem_id ex_low, ex_low) \<in> set (reminders ex_manager)"
      "status (snd (rem_id ex_low, ex_low)) = Active"
    by code_simp+
  have o: "(rem_id ex_done, ex_done) \<in> set (reminders ex_manager)"
      "status (snd (rem_id ex_done, ex_done)) \<noteq> Active
        \<and> getTime ex_env (created (snd (rem_id ex_done, ex_done))) < date_now ex_env"
    by code_simp+
  have z: "fst (clearOldReminders ex_env (Some 400) ex_manager) = 0"
    by code_simp
  note t = clearOldReminders_contract [OF d, of ex_env None]
  note u = clearOldReminders_contract [OF d, of ex_env "Some 0"]
  note x = clearOldReminders_contract [OF d, of ex_env "Some 400"]
  from t w have 1: "disk (snd (clearOldReminders ex_env None ex_manager))
       = Json (Object_fromEntries (reminders (snd (clearOldReminders ex_env None ex_manager))))"
    by blast
  from u l have 2: "(rem_id ex_low, ex_low) \<in> set (reminders (snd (clearOldReminders ex_env (Some 0) ex_manager)))"
    by blast
  from u o have 3: "(rem_id ex_done, ex_done) \<notin> set (reminders (snd (clearOldReminders ex_env (Some 0) ex_manager)))"
    by blast
  from x z have 4: "snd (clearOldReminders ex_env (Some 400) ex_manager) = ex_manager"
    by blast
  from d v w 1 l 2 o 3 z 4 show ?thesis
    by blast
qed

text \<open>
  C3 as stated fails for zero days: a reminder added and completed in the millisecond in
  which the purge runs is not older than the cutoff, so the purge removes nothing and
  the completed record stays.
\<close>

theorem clearOldReminders_zero_days_counterexample:
  "reminders (run [(ex_env, Add ''pay the rent'' None), (ex_env, Complete ''rem_1793606400000_k3x9q'')]
               (new_ReminderManager NoFile))
     = [(''rem_1793606400000_k3x9q'',
         \<lparr>rem_id = ''rem_1793606400000_k3x9q'', content = ''pay the rent'', priority = Normal,
          created = ''2026-11-02T08:00:00.000Z'', completed = Some ''2026-11-02T08:00:00.000Z'',
          status = Completed\<rparr>)]
   \<and> clearOldReminders ex_env (Some 0)
         (run [(ex_env, Add ''pay the rent'' None), (ex_env, Complete ''rem_1793606400000_k3x9q'')]
            (new_ReminderManager NoFile))
       = (0, run [(ex_env, Add ''pay the rent'' None), (ex_env, Complete ''rem_1793606400000_k3x9q'')]
               (new_ReminderManager NoFile))"
  by code_simp

subsection \<open>The life of a record\<close>

lemma step_distinct:
  assumes "distinct (map fst (reminders m))"
  shows "distinct (map fst (reminders (step e x m)))"
proof (cases x)
  case (Add c p)
  with assms show ?thesis by (simp add: addReminder_distinct)
next
  case (List f)
  with assms show ?thesis by simp
next
  case (Complete k)
  with assms show ?thesis
    by (auto simp: completeReminder_def distinct_update split: option.splits)
next
  case (Delete k)
  with assms show ?thesis
    by (simp add: deleteReminder_def Let_def distinct_delete)
next
  case (Move k n)
  with assms show ?thesis
    by (auto simp: moveToNotes_def Let_def distinct_update split: option.splits)
next
  case (Purge d)
  with assms show ?thesis
    by (simp add: clearOldReminders_result Let_def distinct_map_filter)
qed

lemma step_store_ok:
  assumes "store_ok (reminders m)"
  shows "store_ok (reminders (step e x m))"
proof (cases x)
  case (Add c p)
  with assms show ?thesis by (simp add: addReminder_store_ok)
next
  case (List f)
  with assms show ?thesis by simp
next
  case (Complete k)
  show ?thesis
  proof (cases "\<exists>r. map_of (reminders m) k = Some r \<and> status r = Active")
    case True
    then obtain r where r: "map_of (reminders m) k = Some r" "status r = Active"
      by blast
    from r(1) have "(k, r) \<in> set (reminders m)"
      by (rule map_of_SomeD)
    with assms have "rem_id r = k"
      by (auto simp: store_ok_def list_all_iff)
    with assms Complete show ?thesis
      by (simp add: completeReminder_active [OF r] store_ok_update)
  next
    case False
    with assms Complete show ?thesis
      by (simp add: completeReminder_refused)
  qed
next
  case (Delete k)
  with assms show ?thesis
    by (simp add: deleteReminder_def Let_def store_ok_delete)
next
  case (Move k n)
  show ?thesis
  proof (cases "map_of (reminders m) k")
    case None
    with assms Move show ?thesis
      by (simp add: moveToNotes_def)
  next
    case (Some r)
    then have "(k, r) \<in> set (reminders m)"
      by (rule map_of_SomeD)
    with assms have "rem_id r = k"
      by (auto simp: store_ok_def list_all_iff)
    with assms Move Some show ?thesis
      by (auto simp: moveToNotes_def Let_def store_ok_update split: option.splits)
  qed
next
  case (Purge d)
  from assms have "distinct (map fst (reminders m))"
    by (simp add: store_ok_def)
  with assms Purge show ?thesis
    by (simp add: clearOldReminders_result Let_def store_ok_filter)
qed

lemma record_step_same [simp]: "record_step e x k b b"
  by (cases b) (simp_all add: record_step_def)

lemma record_step_one:
  assumes "distinct (map fst (reminders m))"
    and "is_add x \<and> new_id e \<in> fst ` set (reminders m) \<longrightarrow> k \<noteq> new_id e"
  shows "record_step e x k (map_of (reminders m) k) (map_of (reminders (step e x m)) k)"
proof (cases x)
  case (Add c p)
  show ?thesis
  proof (cases "k = new_id e")
    case True
    with assms(2) Add have "new_id e \<notin> fst ` set (reminders m)"
      by auto
    then have "map_of (reminders m) (new_id e) = None"
      by (simp add: map_of_eq_None_iff)
    with True Add show ?thesis
      by (simp add: addReminder_stored record_step_def)
  next
    case False
    then have "map_of (reminders (step e x m)) k = map_of (reminders m) k"
      using Add by (simp add: addReminder_result update_conv')
    then show ?thesis
      by simp
  qed
next
  case (List f)
  then show ?thesis by simp
next
  case (Complete j)
  show ?thesis
  proof (cases "\<exists>r. map_of (reminders m) j = Some r \<and> status r = Active")
    case True
    then obtain r where r: "map_of (reminders m) j = Some r" "status r = Active"
      by blast
    show ?thesis
    proof (cases "k = j")
      case True
      with Complete r show ?thesis
        by (simp add: completeReminder_active [OF r] update_conv' record_step_def)
    next
      case False
      then have "map_of (reminders (step e x m)) k = map_of (reminders m) k"
        using Complete by (simp add: completeReminder_active [OF r] update_conv')
      then show ?thesis
        by simp
    qed
  next
    case False
    with Complete show ?thesis
      by (simp add: completeReminder_refused)
  qed
next
  case (Delete j)
  have rs: "reminders (step e x m) = AList.delete j (reminders m)"
    using Delete by (simp add: deleteReminder_def Let_def)
  show ?thesis
  proof (cases "k = j")
    case True
    have gone: "map_of (reminders (step e x m)) k = None"
      using True by (simp add: rs delete_conv')
    show ?thesis
      unfolding gone using True Delete
      by (cases "map_of (reminders m) k") (simp_all add: record_step_def)
  next
    case False
    then have "map_of (reminders (step e x m)) k = map_of (reminders m) k"
      by (simp add: rs delete_conv')
    then show ?thesis
      by simp
  qed
next
  case (Move j n)
  show ?thesis
  proof (cases "\<exists>r. map_of (reminders m) j = Some r \<and> status r = Active")
    case True
    then obtain r where r: "map_of (reminders m) j = Some r" "status r = Active"
      by blast
    show ?thesis
    proof (cases "sink e (note_filename e j) (noteContent e r n)")
      case None
      note eq = moveToNotes_written [OF r None]
      show ?thesis
      proof (cases "k = j")
        case True
        with Move r None show ?thesis
          by (simp add: eq update_conv' record_step_def)
      next
        case False
        then have "map_of (reminders (step e x m)) k = map_of (reminders m) k"
          using Move by (simp add: eq update_conv')
        then show ?thesis
          by simp
      qed
    next
      case (Some err)
      with Move show ?thesis
        by (simp add: moveToNotes_failed [OF r Some])
    qed
  next
    case False
    with Move show ?thesis
      by (simp add: moveToNotes_refused)
  qed
next
  case (Purge d)
  let ?old = "\<lambda>p. is_old e (cutoff_of e d) (snd p)"
  have rs: "reminders (step e x m) = filter (\<lambda>p. \<not> ?old p) (reminders m)"
    using Purge by (simp add: clearOldReminders_result [OF assms(1)] Let_def)
  show ?thesis
  proof (cases "map_of (reminders m) k")
    case None
    then have "k \<notin> fst ` set (reminders m)"
      by (simp add: map_of_eq_None_iff)
    then have "k \<notin> fst ` set (filter (\<lambda>p. \<not> ?old p) (reminders m))"
      by auto
    then have "map_of (reminders (step e x m)) k = None"
      by (simp only: rs map_of_eq_None_iff not_False_eq_True)
    with None show ?thesis
      by simp
  next
    case (Some r)
    show ?thesis
    proof (cases "is_old e (cutoff_of e d) r")
      case True
      have "k \<notin> fst ` set (filter (\<lambda>p. \<not> ?old p) (reminders m))"
      proof
        assume "k \<in> fst ` set (filter (\<lambda>p. \<not> ?old p) (reminders m))"
        then obtain r' where "(k, r') \<in> set (reminders m)" and "\<not> is_old e (cutoff_of e d) r'"
          by auto
        with assms(1) Some have "r' = r"
          by simp
        with True \<open>\<not> is_old e (cutoff_of e d) r'\<close> show False
          by simp
      qed
      then have "map_of (reminders (step e x m)) k = None"
        by (simp only: rs map_of_eq_None_iff not_False_eq_True)
      with Some True Purge show ?thesis
        by (simp add: record_step_def is_old_def)
    next
      case False
      from Some have "(k, r) \<in> set (reminders m)"
        by (rule map_of_SomeD)
      with False have "(k, r) \<in> set (filter (\<lambda>p. \<not> ?old p) (reminders m))"
        by simp
      moreover from assms(1) have "distinct (map fst (filter (\<lambda>p. \<not> ?old p) (reminders m)))"
        by (rule distinct_map_filter)
      ultimately have "map_of (reminders (step e x m)) k = Some r"
        by (simp only: rs map_of_eq_Some_iff)
      with Some show ?thesis
        by simp
    qed
  qed
qed

lemma record_step_fields:
  assumes "record_step e x k (Some r) (Some r')"
  shows "created r' = created r \<and> content r' = content r \<and> priority r' = priority r
    \<and> rem_id r' = rem_id r
    \<and> (status r \<noteq> Active \<longrightarrow> r' = r)
    \<and> (status r' \<noteq> status r \<longrightarrow> status r = Active \<and> (status r' = Completed \<or> status r' = Moved))
    \<and> (completed r' \<noteq> completed r \<longrightarrow>
          x = Complete k \<and> status r = Active \<and> status r' = Completed
          \<and> completed r' = Some (iso_now e))"
proof -
  from assms consider "r' = r"
    | "x = Complete k" "status r = Active"
      "r' = r\<lparr>status := Completed, completed := Some (iso_now e)\<rparr>"
    | "handed_off e k r x" "status r = Active" "r' = r\<lparr>status := Moved\<rparr>"
    by (auto simp: record_step_def)
  then show ?thesis
    by cases simp_all
qed

lemma run_distinct:
  "distinct (map fst (reminders m)) \<Longrightarrow> distinct (map fst (reminders (run xs m)))"
proof (induction xs arbitrary: m)
  case Nil
  then show ?case by simp
next
  case (Cons s xs)
  obtain e x where "s = (e, x)" by (cases s)
  with Cons.IH [OF step_distinct [OF Cons.prems, of e x]] show ?case
    by simp
qed

lemma run_store_ok:
  "store_ok (reminders m) \<Longrightarrow> store_ok (reminders (run xs m))"
proof (induction xs arbitrary: m)
  case Nil
  then show ?case by simp
next
  case (Cons s xs)
  obtain e x where "s = (e, x)" by (cases s)
  with Cons.IH [OF step_store_ok [OF Cons.prems, of e x]] show ?case
    by simp
qed

lemma new_manager_store_ok: "store_ok (reminders (new_ReminderManager NoFile))"
  by (simp add: new_ReminderManager_def loadReminders_def store_ok_def)

lemma reloaded_store_ok:
  assumes "store_ok (reminders m)" and "write_ok e"
  shows "store_ok (reminders (new_ReminderManager (disk (saveReminders e m))))"
proof -
  from assms(1) have d: "distinct (map fst (reminders m))"
    by (simp add: store_ok_def)
  then have "reminders (new_ReminderManager (disk (saveReminders e m))) = own_properties (reminders m)"
    using assms(2)
    by (simp add: new_ReminderManager_def loadReminders_def disk_saveReminders reload_saved)
  with assms(1) d show ?thesis
    by (simp add: store_ok_def distinct_own_properties list_all_iff set_own_properties)
qed

text \<open>
  C5, as the code has it. Along every run of operations from a map with distinct keys,
  each step treats every id as the state machine says, the one exception being the id
  that an add builds when that id is already a key: a record appears only through an
  add, active and without completion time; it disappears only through a delete of its id
  or, when it is not active, through a purge; a record that stays keeps its id, content,
  priority and creation time; one that is not active stays as it is; the status changes
  only from active to completed or to moved; and the completion time changes only in
  the step that completes the record. An add that builds an id already in use is held
  to all of this at every other id.
\<close>

theorem record_life_cycle:
  assumes "distinct (map fst (reminders m0))"
  shows "every_step
     (\<lambda>e x m m'. \<forall>k.
        (is_add x \<and> new_id e \<in> fst ` set (reminders m) \<longrightarrow> k \<noteq> new_id e) \<longrightarrow>
        record_step e x k (map_of (reminders m) k) (map_of (reminders m') k)
        \<and> (\<forall>r r'. map_of (reminders m) k = Some r \<and> map_of (reminders m') k = Some r' \<longrightarrow>
              created r' = created r \<and> content r' = content r \<and> priority r' = priority r
              \<and> rem_id r' = rem_id r
              \<and> (status r \<noteq> Active \<longrightarrow> r' = r)
              \<and> (status r' \<noteq> status r \<longrightarrow>
                    status r = Active \<and> (status r' = Completed \<or> status r' = Moved))
              \<and> (completed r' \<noteq> completed r \<longrightarrow>
                    x = Complete k \<and> status r = Active \<and> status r' = Completed
                    \<and> completed r' = Some (iso_now e))))
     steps m0"
  using assms
proof (induction steps arbitrary: m0)
  case Nil
  then show ?case by simp
next
  case (Cons s steps)
  obtain e x where s: "s = (e, x)" by (cases s)
  from Cons.prems have d: "distinct (map fst (reminders (step e x m0)))"
    by (rule step_distinct)
  have here: "record_step e x k (map_of (reminders m0) k) (map_of (reminders (step e x m0)) k)"
    if "is_add x \<and> new_id e \<in> fst ` set (reminders m0) \<longrightarrow> k \<noteq> new_id e" for k
    using Cons.prems that by (rule record_step_one)
  have fields: "created r' = created r \<and> content r' = content r \<and> priority r' = priority r
      \<and> rem_id r' = rem_id r
      \<and> (status r \<noteq> Active \<longrightarrow> r' = r)
      \<and> (status r' \<noteq> status r \<longrightarrow> status r = Active \<and> (status r' = Completed \<or> status r' = Moved))
      \<and> (completed r' \<noteq> completed r \<longrightarrow>
            x = Complete k \<and> status r = Active \<and> status r' = Completed
            \<and> completed r' = Some (iso_now e))"
    if "is_add x \<and> new_id e \<in> fst ` set (reminders m0) \<longrightarrow> k \<noteq> new_id e"
      and "map_of (reminders m0) k = Some r" and "map_of (reminders (step e x m0)) k = Some r'"
    for k r r'
    using here [OF that(1)] that(2,3) by (simp add: record_step_fields)
  have now: "\<forall>k. (is_add x \<and> new_id e \<in> fst ` set (reminders m0) \<longrightarrow> k \<noteq> new_id e) \<longrightarrow>
        record_step e x k (map_of (reminders m0) k) (map_of (reminders (step e x m0)) k)
        \<and> (\<forall>r r'. map_of (reminders m0) k = Some r
                \<and> map_of (reminders (step e x m0)) k = Some r' \<longrightarrow>
              created r' = created r \<and> content r' = content r \<and> priority r' = priority r
              \<and> rem_id r' = rem_id r
              \<and> (status r \<noteq> Active \<longrightarrow> r' = r)
              \<and> (status r' \<noteq> status r \<longrightarrow>
                    status r = Active \<and> (status r' = Completed \<or> status r' = Moved))
              \<and> (completed r' \<noteq> completed r \<longrightarrow>
                    x = Complete k \<and> status r = Active \<and> status r' = Completed
                    \<and> completed r' = Some (iso_now e)))"
    using here fields by blast
  show ?case
    unfolding s every_step.simps
    using now Cons.IH [OF d] by (rule conjI)
qed

theorem record_life_cycle_witness:
  "distinct (map fst (reminders ex_manager))
   \<and> new_id ex_env \<notin> fst ` set (reminders ex_manager)
   \<and> record_step ex_env (Add ''buy milk'' None) (new_id ex_env)
        (map_of (reminders ex_manager) (new_id ex_env))
        (map_of (reminders (step ex_env (Add ''buy milk'' None) ex_manager)) (new_id ex_env))
   \<and> record_step ex_env (Complete (new_id ex_env)) (new_id ex_env)
        (map_of (reminders (step ex_env (Add ''buy milk'' None) ex_manager)) (new_id ex_env))
        (map_of (reminders (step ex_env (Complete (new_id ex_env))
                              (step ex_env (Add ''buy milk'' None) ex_manager))) (new_id ex_env))
   \<and> map_of (reminders ex_manager) (new_id ex_env) = None
   \<and> map_of (reminders (step ex_env (Add ''buy milk'' None) ex_manager)) (new_id ex_env)
       = Some \<lparr>rem_id = ''rem_1793606400000_k3x9q'', content = ''buy milk'', priority = Normal,
               created = ''2026-11-02T08:00:00.000Z'', completed = None, status = Active\<rparr>
   \<and> map_of (reminders (step ex_env (Complete (new_id ex_env))
                            (step ex_env (Add ''buy milk'' None) ex_manager))) (new_id ex_env)
       = Some \<lparr>rem_id = ''rem_1793606400000_k3x9q'', content = ''buy milk'', priority = Normal,
               created = ''2026-11-02T08:00:00.000Z'',
               completed = Some ''2026-11-02T08:00:00.000Z'', status = Completed\<rparr>
   \<and> new_id ex_env_clash \<in> fst ` set (reminders ex_manager)
   \<and> rem_id ex_done \<noteq> new_id ex_env_clash
   \<and> map_of (reminders ex_manager) (rem_id ex_done) = Some ex_done
   \<and> record_step ex_env_clash (Add ''buy milk'' None) (rem_id ex_done)
        (map_of (reminders ex_manager) (rem_id ex_done))
        (map_of (reminders (step ex_env_clash (Add ''buy milk'' None) ex_manager)) (rem_id ex_done))
   \<and> map_of (reminders (step ex_env_clash (Add ''buy milk'' None) ex_manager)) (rem_id ex_done)
       = Some ex_done"
proof -
  have d: "distinct (map fst (reminders ex_manager))"
    by code_simp
  have fr: "new_id ex_env \<notin> fst ` set (reminders ex_manager)"
    by code_simp
  have na: "\<not> is_add (Complete (new_id ex_env))"
    by simp
  have v0: "map_of (reminders ex_manager) (new_id ex_env) = None"
    by code_simp
  have v1: "map_of (reminders (step ex_env (Add ''buy milk'' None) ex_manager)) (new_id ex_env)
       = Some \<lparr>rem_id = ''rem_1793606400000_k3x9q'', content = ''buy milk'', priority = Normal,
               created = ''2026-11-02T08:00:00.000Z'', completed = None, status = Active\<rparr>"
    by code_simp
  have v2: "map_of (reminders (step ex_env (Complete (new_id ex_env))
                            (step ex_env (Add ''buy milk'' None) ex_manager))) (new_id ex_env)
       = Some \<lparr>rem_id = ''rem_1793606400000_k3x9q'', content = ''buy milk'', priority = Normal,
               created = ''2026-11-02T08:00:00.000Z'',
               completed = Some ''2026-11-02T08:00:00.000Z'', status = Completed\<rparr>"
    by code_simp
  have cl: "new_id ex_env_clash \<in> fst ` set (reminders ex_manager)"
    by code_simp
  have ne: "rem_id ex_done \<noteq> new_id ex_env_clash"
    by code_simp
  have w0: "map_of (reminders ex_manager) (rem_id ex_done) = Some ex_done"
    by code_simp
  have w1: "map_of (reminders (step ex_env_clash (Add ''buy milk'' None) ex_manager)) (rem_id ex_done)
       = Some ex_done"
    by code_simp
  note t = record_life_cycle [OF d,
      of "[(ex_env, Add ''buy milk'' None), (ex_env, Complete (new_id ex_env))]",
      unfolded every_step.simps]
  from t fr have 1: "record_step ex_env (Add ''buy milk'' None) (new_id ex_env)
        (map_of (reminders ex_manager) (new_id ex_env))
        (map_of (reminders (step ex_env (Add ''buy milk'' None) ex_manager)) (new_id ex_env))"
    by blast
  from t na have 2: "record_step ex_env (Complete (new_id ex_env)) (new_id ex_env)
        (map_of (reminders (step ex_env (Add ''buy milk'' None) ex_manager)) (new_id ex_env))
        (map_of (reminders (step ex_env (Complete (new_id ex_env))
                              (step ex_env (Add ''buy milk'' None) ex_manager))) (new_id ex_env))"
    by blast
  note u = record_life_cycle [OF d, of "[(ex_env_clash, Add ''buy milk'' None)]",
      unfolded every_step.simps]
  from u ne have 3: "record_step ex_env_clash (Add ''buy milk'' None) (rem_id ex_done)
        (map_of (reminders ex_manager) (rem_id ex_done))
        (map_of (reminders (step ex_env_clash (Add ''buy milk'' None) ex_manager)) (rem_id ex_done))"
    by blast
  from d fr 1 2 v0 v1 v2 cl ne w0 3 w1 show ?thesis
    by blast
qed

text \<open>
  C5 as stated fails when an add builds an id that is already a key: the reminder added
  and completed in one millisecond is replaced, by an add in that millisecond that draws
  the same random suffix, with a new active record under the same id.
\<close>

theorem record_life_cycle_counterexample:
  "map_of (reminders (run [(ex_env, Add ''pay the rent'' None),
                           (ex_env, Complete ''rem_1793606400000_k3x9q'')]
                        (new_ReminderManager NoFile))) ''rem_1793606400000_k3x9q''
     = Some \<lparr>rem_id = ''rem_1793606400000_k3x9q'', content = ''pay the rent'', priority = Normal,
             created = ''2026-11-02T08:00:00.000Z'',
             completed = Some ''2026-11-02T08:00:00.000Z'', status = Completed\<rparr>
   \<and> map_of (reminders (run [(ex_env, Add ''pay the rent'' None),
                             (ex_env, Complete ''rem_1793606400000_k3x9q''),
                             (ex_env, Add ''call home'' (Some High))]
                          (new_ReminderManager NoFile))) ''rem_1793606400000_k3x9q''
     = Some \<lparr>rem_id = ''rem_1793606400000_k3x9q'', content = ''call home'', priority = High,
             created = ''2026-11-02T08:00:00.000Z'', completed = None, status = Active\<rparr>"
  by code_simp

end
